theory Spec2Isabelle
  imports Complex_Main "HOL-Library.Multiset"
begin

section \<open>Data model of elmer\_circuitbuilder\<close>

text \<open>
  The Python exceptions that the modelled functions can raise. \<open>IndexError\<close> is raised by
  list and array indexing out of range, \<open>TypeError\<close> by arithmetic on \<open>None\<close> and by storing
  a complex number into a float64 array, \<open>ValueError\<close> by numpy on mismatching shapes.
  float64 is idealised as \<open>real\<close>; numpy stores NaN when \<open>None\<close> is assigned into a float64
  array, which has no real counterpart, so the model stops there with \<open>NotANumber\<close>.
\<close>

datatype py_error = IndexError | TypeError | ValueError | NotANumber

text \<open>The value of a component: \<open>None\<close>, a real number (int or float) or a complex number.\<close>

datatype pyval = PyNone | PyFloat real | PyComplex complex

text \<open>
  The class of a component object: the base class \<open>Component\<close> or one of its subclasses
  \<open>R\<close>, \<open>V\<close>, \<open>I\<close>, \<open>L\<close>, \<open>C\<close> and \<open>ElmerComponent\<close>, none of which inherits from another.
\<close>

datatype cls = cls_Component | cls_R | cls_V | cls_I | cls_L | cls_C | cls_ElmerComponent

record component =
  cls :: cls
  name :: string
  pin1 :: int
  pin2 :: int
  cvalue :: pyval

text \<open>
  The private state of an \<open>ElmerComponent\<close> that \<open>isClosed\<close>, \<open>isOpen\<close>,
  \<open>getOpenTerminals\<close> and \<open>getTerminalType\<close> touch. \<open>None\<close> is the Python \<open>None\<close> the
  constructor stores.
\<close>

record elmer_state =
  is_closed :: "bool option"
  bnd1 :: "int option"
  bnd2 :: "int option"

definition elmer_init :: elmer_state where
  "elmer_init = \<lparr>is_closed = None, bnd1 = None, bnd2 = None\<rparr>"

definition isClosed :: "elmer_state \<Rightarrow> elmer_state" where
  "isClosed s = s\<lparr>is_closed := Some True\<rparr>"

definition isOpen :: "int option \<Rightarrow> int option \<Rightarrow> elmer_state \<Rightarrow> elmer_state" where
  "isOpen b1 b2 s = s\<lparr>bnd1 := b1, bnd2 := b2, is_closed := Some False\<rparr>"

definition getOpenTerminals :: "elmer_state \<Rightarrow> int option list" where
  "getOpenTerminals s = [bnd1 s, bnd2 s]"

definition getTerminalType :: "elmer_state \<Rightarrow> bool option" where
  "getTerminalType s = is_closed s"

datatype elmer_call = CallIsClosed | CallIsOpen "int option" "int option"

fun run_call :: "elmer_call \<Rightarrow> elmer_state \<Rightarrow> elmer_state" where
  "run_call CallIsClosed s = isClosed s"
| "run_call (CallIsOpen b1 b2) s = isOpen b1 b2 s"

fun run_calls :: "elmer_call list \<Rightarrow> elmer_state \<Rightarrow> elmer_state" where
  "run_calls [] s = s"
| "run_calls (c # cs) s = run_calls cs (run_call c s)"

text \<open>A component exposes both a closed terminal type and declared boundary ids.\<close>

definition exposes_both :: "elmer_state \<Rightarrow> bool" where
  "exposes_both s = (getTerminalType s = Some True \<and> getOpenTerminals s \<noteq> [None, None])"

section \<open>numpy arrays\<close>

text \<open>
  A two-dimensional numpy array: its number of columns and its rows. The number of rows is
  the length of \<open>rows\<close>; the number of columns is kept apart because an array of shape
  \<open>(0, k)\<close> has no row to read it from.
\<close>

datatype 'a ndarray = NDArray (ncols: nat) (rows: "'a list list")

definition nrows :: "'a ndarray \<Rightarrow> nat" where
  "nrows M = length (rows M)"

text \<open>\<open>for x in xs: body\<close> over a state, stopping at the first exception.\<close>

fun for_loop :: "'i list \<Rightarrow> ('i \<Rightarrow> 's \<Rightarrow> py_error + 's) \<Rightarrow> 's \<Rightarrow> py_error + 's" where
  "for_loop [] body s = Inr s"
| "for_loop (x # xs) body s =
     (case body x s of Inl e \<Rightarrow> Inl e | Inr s' \<Rightarrow> for_loop xs body s')"

text \<open>\<open>[f(i) for i in xs]\<close>, stopping at the first exception.\<close>

fun comprehension :: "'i list \<Rightarrow> ('i \<Rightarrow> py_error + 'b) \<Rightarrow> py_error + 'b list" where
  "comprehension [] f = Inr []"
| "comprehension (x # xs) f =
     (case f x of Inl e \<Rightarrow> Inl e
      | Inr y \<Rightarrow> (case comprehension xs f of Inl e \<Rightarrow> Inl e | Inr ys \<Rightarrow> Inr (y # ys)))"

text \<open>\<open>xs[i]\<close> on a Python list, for an index that \<open>range\<close> or \<open>enumerate\<close> produced.\<close>

definition py_list_get :: "'a list \<Rightarrow> nat \<Rightarrow> py_error + 'a" where
  "py_list_get xs i = (if i < length xs then Inr (xs ! i) else Inl IndexError)"

text \<open>
  An integer index into an axis of length \<open>n\<close>: numpy counts a negative index from the end
  and raises \<open>IndexError\<close> outside \<open>-n..n-1\<close>.
\<close>

definition np_index :: "nat \<Rightarrow> int \<Rightarrow> py_error + nat" where
  "np_index n i =
     (if 0 \<le> i \<and> i < int n then Inr (nat i)
      else if - int n \<le> i \<and> i < 0 then Inr (nat (i + int n))
      else Inl IndexError)"

text \<open>
  \<open>np.zeros(shape=(r, c))\<close> is \<open>np_full r c 0\<close>; \<open>np.empty((r, c), dtype='|S500')\<close> followed
  by the loops that store the empty string in every cell is \<open>np_full r c []\<close>.
\<close>

definition np_full :: "nat \<Rightarrow> nat \<Rightarrow> 'a \<Rightarrow> 'a ndarray" where
  "np_full r c v = NDArray c (replicate r (replicate c v))"

text \<open>\<open>M[i][j] = v\<close>.\<close>

definition set_cell :: "'a ndarray \<Rightarrow> int \<Rightarrow> int \<Rightarrow> 'a \<Rightarrow> py_error + 'a ndarray" where
  "set_cell M i j v =
     (case np_index (nrows M) i of Inl e \<Rightarrow> Inl e
      | Inr r \<Rightarrow>
         (case np_index (ncols M) j of Inl e \<Rightarrow> Inl e
          | Inr c \<Rightarrow> Inr (NDArray (ncols M) ((rows M)[r := (rows M ! r)[c := v]]))))"

text \<open>
  \<open>A + B\<close>, cell by cell with the operation \<open>f\<close>: the sum of numbers on float64 arrays and
  the concatenation of byte strings on \<open>S\<close> arrays (numpy adds byte-string arrays from
  version 2.0 on; earlier versions raise on it, and no builder of the symbolic track runs).
  Both operands of every sum in the modelled functions are built there with one shape, so
  broadcasting never applies.
\<close>

definition np_add :: "('a \<Rightarrow> 'a \<Rightarrow> 'a) \<Rightarrow> 'a ndarray \<Rightarrow> 'a ndarray \<Rightarrow> 'a ndarray" where
  "np_add f A B = NDArray (ncols A) (map2 (map2 f) (rows A) (rows B))"

text \<open>\<open>np.delete(M, i, 0)\<close> for an integer \<open>i\<close>.\<close>

definition np_delete_row :: "'a ndarray \<Rightarrow> int \<Rightarrow> py_error + 'a ndarray" where
  "np_delete_row M i =
     (case np_index (nrows M) i of Inl e \<Rightarrow> Inl e
      | Inr k \<Rightarrow> Inr (NDArray (ncols M) (take k (rows M) @ drop (Suc k) (rows M))))"

text \<open>
  Storing a Python \<open>str\<close> into a cell of an \<open>S500\<close> array keeps its first 500 bytes. Names
  are taken to be ASCII without NUL bytes (numpy refuses the first and strips trailing
  NULs).
\<close>

definition to_S500 :: "string \<Rightarrow> string" where
  "to_S500 s = take 500 s"

text \<open>The array of shape \<open>(r, c)\<close> whose cell \<open>(i, j)\<close> is \<open>f i j\<close>.\<close>

definition tabulate :: "nat \<Rightarrow> nat \<Rightarrow> (nat \<Rightarrow> nat \<Rightarrow> 'a) \<Rightarrow> 'a ndarray" where
  "tabulate r c f = NDArray c (map (\<lambda>i. map (f i) [0..<c]) [0..<r])"

text \<open>An array has shape \<open>(r, c)\<close>.\<close>

definition has_shape :: "'a ndarray \<Rightarrow> nat \<Rightarrow> nat \<Rightarrow> bool" where
  "has_shape M r c =
     (ncols M = c \<and> length (rows M) = r \<and> list_all (\<lambda>row. length row = c) (rows M))"

text \<open>The indices numpy accepts on an axis of length \<open>n\<close>, and the position they denote.\<close>

definition in_range :: "nat \<Rightarrow> int \<Rightarrow> bool" where
  "in_range n i = (- int n \<le> i \<and> i < int n)"

definition norm_index :: "nat \<Rightarrow> int \<Rightarrow> nat" where
  "norm_index n i = nat (if i < 0 then i + int n else i)"

section \<open>Graph quantities and the incidence matrix\<close>

fun unique_nodes_loop :: "component list \<Rightarrow> int list \<Rightarrow> int list" where
  "unique_nodes_loop [] unique_nodes = unique_nodes"
| "unique_nodes_loop (component # components) unique_nodes =
     (let u1 = (if pin1 component \<notin> set unique_nodes then unique_nodes @ [pin1 component]
                else unique_nodes);
          u2 = (if pin2 component \<notin> set u1 then u1 @ [pin2 component] else u1)
      in unique_nodes_loop components u2)"

definition get_num_nodes :: "component list \<Rightarrow> nat" where
  "get_num_nodes components = length (unique_nodes_loop components [])"

definition get_num_edges :: "component list \<Rightarrow> nat" where
  "get_num_edges components = length components"

text \<open>
  \<open>n1_index\<close> and \<open>n2_index\<close> are read with \<open>components[i]\<close> for \<open>i\<close> in
  \<open>range(0, num_edges)\<close>; \<open>num_nodes\<close> and \<open>num_edges\<close> are lengths, hence natural numbers.
\<close>

definition pin_indices ::
  "(component \<Rightarrow> int) \<Rightarrow> component list \<Rightarrow> nat \<Rightarrow> py_error + int list" where
  "pin_indices pin components num_edges =
     comprehension [0..<num_edges]
       (\<lambda>i. case py_list_get components i of Inl e \<Rightarrow> Inl e | Inr c \<Rightarrow> Inr (pin c - 1))"

text \<open>\<open>for i, j in zip(rows, cols): M[i][j] = v\<close>.\<close>

definition fill_cells :: "'a \<Rightarrow> (int \<times> int) list \<Rightarrow> 'a ndarray \<Rightarrow> py_error + 'a ndarray" where
  "fill_cells v ps M = for_loop ps (\<lambda>p A. case p of (i, j) \<Rightarrow> set_cell A i j v) M"

definition get_incidence_matrix ::
  "component list \<Rightarrow> nat \<Rightarrow> nat \<Rightarrow> int \<Rightarrow> py_error + real ndarray" where
  "get_incidence_matrix components num_nodes num_edges n_ref =
     (case pin_indices pin1 components num_edges of Inl e \<Rightarrow> Inl e | Inr n1_index \<Rightarrow>
      case pin_indices pin2 components num_edges of Inl e \<Rightarrow> Inl e | Inr n2_index \<Rightarrow>
      let plus_terminal = map int [0..<num_edges];
          minus_terminal = map int [0..<num_edges]
      in
      case fill_cells 1 (zip n1_index plus_terminal) (np_full num_nodes num_edges 0) of
        Inl e \<Rightarrow> Inl e | Inr Amat_plus \<Rightarrow>
      case fill_cells (- 1) (zip n2_index minus_terminal) (np_full num_nodes num_edges 0) of
        Inl e \<Rightarrow> Inl e | Inr Amat_minus \<Rightarrow>
      np_delete_row (np_add (+) Amat_plus Amat_minus) (n_ref - 1))"

text \<open>
  The symbolic twin. \<open>str(1)\<close> and \<open>str(-1)\<close> are the tokens \<open>1\<close> and \<open>-1\<close>; the sum of the
  two \<open>S500\<close> arrays concatenates their cells.
\<close>

definition get_incidence_matrix_str ::
  "component list \<Rightarrow> nat \<Rightarrow> nat \<Rightarrow> int \<Rightarrow> py_error + string ndarray" where
  "get_incidence_matrix_str components numnodes numedges n_ref =
     (case pin_indices pin1 components numedges of Inl e \<Rightarrow> Inl e | Inr n1_index \<Rightarrow>
      case pin_indices pin2 components numedges of Inl e \<Rightarrow> Inl e | Inr n2_index \<Rightarrow>
      let plus_terminal = map int [0..<numedges];
          minus_terminal = map int [0..<numedges]
      in
      case fill_cells (to_S500 ''1'') (zip n1_index plus_terminal) (np_full numnodes numedges [])
        of Inl e \<Rightarrow> Inl e | Inr Amat_plus_str \<Rightarrow>
      case fill_cells (to_S500 ''-1'') (zip n2_index minus_terminal) (np_full numnodes numedges [])
        of Inl e \<Rightarrow> Inl e | Inr Amat_minus_str \<Rightarrow>
      np_delete_row (np_add (@) Amat_plus_str Amat_minus_str) (n_ref - 1))"

text \<open>
  The incidence matrix in the words of the specification: in the column of each component,
  \<open>+1\<close> at row \<open>pin1 - 1\<close> and \<open>-1\<close> at row \<open>pin2 - 1\<close>, the two added when they meet in one
  row; then the row \<open>n_ref - 1\<close> is deleted.
\<close>

definition incidence_entry :: "component list \<Rightarrow> nat \<Rightarrow> nat \<Rightarrow> real" where
  "incidence_entry components r c =
     (if pin1 (components ! c) - 1 = int r then 1 else 0)
     + (if pin2 (components ! c) - 1 = int r then - 1 else 0)"

definition incidence_spec :: "component list \<Rightarrow> nat \<Rightarrow> nat \<Rightarrow> int \<Rightarrow> real ndarray" where
  "incidence_spec components num_nodes num_edges n_ref =
     (let full = map (\<lambda>r. map (incidence_entry components r) [0..<num_edges]) [0..<num_nodes];
          k = nat (n_ref - 1)
      in NDArray num_edges (take k full @ drop (Suc k) full))"

text \<open>The sum of column \<open>c\<close> of an array.\<close>

definition column_sum :: "real ndarray \<Rightarrow> nat \<Rightarrow> real" where
  "column_sum M c = sum_list (map (\<lambda>row. row ! c) (rows M))"

section \<open>Component indices and the branch-law builders\<close>

text \<open>
  \<open>get_indices\<close>: one pass over \<open>enumerate(components)\<close> that appends the index to the list
  of the component's class. The result is
  \<open>(indr, indv, indi, indInd, indcap, indcelm)\<close>.
\<close>

definition indices_step ::
  "nat \<times> component
     \<Rightarrow> nat list \<times> nat list \<times> nat list \<times> nat list \<times> nat list \<times> nat list
     \<Rightarrow> nat list \<times> nat list \<times> nat list \<times> nat list \<times> nat list \<times> nat list" where
  "indices_step p acc =
     (case p of (i, cmp) \<Rightarrow>
      case acc of (indr, indv, indi, indInd, indcap, indcelm) \<Rightarrow>
        (if cls cmp = cls_R then indr @ [i] else indr,
         if cls cmp = cls_V then indv @ [i] else indv,
         if cls cmp = cls_I then indi @ [i] else indi,
         if cls cmp = cls_L then indInd @ [i] else indInd,
         if cls cmp = cls_C then indcap @ [i] else indcap,
         if cls cmp = cls_ElmerComponent then indcelm @ [i] else indcelm))"

definition get_indices ::
  "component list \<Rightarrow> nat list \<times> nat list \<times> nat list \<times> nat list \<times> nat list \<times> nat list" where
  "get_indices components = fold indices_step (enumerate 0 components) ([], [], [], [], [], [])"

text \<open>
  Storing a Python value into a float64 cell: a real number is stored, a complex number is a
  \<open>TypeError\<close>, and \<open>None\<close> is stored as NaN (see \<open>NotANumber\<close>).
\<close>

fun as_float :: "pyval \<Rightarrow> py_error + real" where
  "as_float (PyFloat v) = Inr v"
| "as_float (PyComplex z) = Inl TypeError"
| "as_float PyNone = Inl NotANumber"

text \<open>Unary minus on a Python value: a \<open>TypeError\<close> on \<open>None\<close>.\<close>

fun py_neg :: "pyval \<Rightarrow> py_error + pyval" where
  "py_neg (PyFloat v) = Inr (PyFloat (- v))"
| "py_neg (PyComplex z) = Inr (PyComplex (- z))"
| "py_neg PyNone = Inl TypeError"

text \<open>
  \<open>M[i][j] = x\<close> on a float64 array, for a Python value \<open>x\<close> already evaluated: numpy checks
  the indices before it converts the value.
\<close>

definition store_float :: "real ndarray \<Rightarrow> int \<Rightarrow> int \<Rightarrow> pyval \<Rightarrow> py_error + real ndarray" where
  "store_float M i j x =
     (case set_cell M i j 0 of Inl e \<Rightarrow> Inl e
      | Inr _ \<Rightarrow> (case as_float x of Inl e \<Rightarrow> Inl e | Inr v \<Rightarrow> set_cell M i j v))"

text \<open>\<open>for i in ind: M[i][i] = v\<close>.\<close>

definition fill_diag :: "'a \<Rightarrow> nat list \<Rightarrow> 'a ndarray \<Rightarrow> py_error + 'a ndarray" where
  "fill_diag v ind M = for_loop ind (\<lambda>i A. set_cell A (int i) (int i) v) M"

text \<open>\<open>for i in ind: M[i][i] = components[i].value\<close>.\<close>

definition fill_diag_value ::
  "component list \<Rightarrow> nat list \<Rightarrow> real ndarray \<Rightarrow> py_error + real ndarray" where
  "fill_diag_value components ind M =
     for_loop ind
       (\<lambda>i A. case py_list_get components i of Inl e \<Rightarrow> Inl e
              | Inr c \<Rightarrow> store_float A (int i) (int i) (cvalue c)) M"

text \<open>\<open>for i in ind: M[i][i] = -components[i].value\<close>.\<close>

definition fill_diag_neg_value ::
  "component list \<Rightarrow> nat list \<Rightarrow> real ndarray \<Rightarrow> py_error + real ndarray" where
  "fill_diag_neg_value components ind M =
     for_loop ind
       (\<lambda>i A. case py_list_get components i of Inl e \<Rightarrow> Inl e
              | Inr c \<Rightarrow> (case py_neg (cvalue c) of Inl e \<Rightarrow> Inl e
                         | Inr x \<Rightarrow> store_float A (int i) (int i) x)) M"

text \<open>\<open>for i in ind: M[i][i] = pre + components[i].name\<close>, on an \<open>S500\<close> array.\<close>

definition fill_diag_name ::
  "string \<Rightarrow> component list \<Rightarrow> nat list \<Rightarrow> string ndarray \<Rightarrow> py_error + string ndarray" where
  "fill_diag_name pre components ind M =
     for_loop ind
       (\<lambda>i A. case py_list_get components i of Inl e \<Rightarrow> Inl e
              | Inr c \<Rightarrow> set_cell A (int i) (int i) (to_S500 (pre @ name c))) M"

definition get_resistance_matrix ::
  "component list \<Rightarrow> nat \<Rightarrow> nat list \<Rightarrow> nat list \<Rightarrow> nat list \<Rightarrow> py_error + real ndarray" where
  "get_resistance_matrix components nedges indr indi indcap =
     (case fill_diag_value components indr (np_full nedges nedges 0) of
        Inl e \<Rightarrow> Inl e | Inr Rmat_r \<Rightarrow>
      case fill_diag 1 indi (np_full nedges nedges 0) of Inl e \<Rightarrow> Inl e | Inr Rmat_i \<Rightarrow>
      case fill_diag 1 indcap (np_full nedges nedges 0) of Inl e \<Rightarrow> Inl e | Inr Rmat_cap \<Rightarrow>
      Inr (np_add (+) (np_add (+) Rmat_r Rmat_i) Rmat_cap))"

definition get_resistance_matrix_str ::
  "component list \<Rightarrow> nat \<Rightarrow> nat list \<Rightarrow> nat list \<Rightarrow> nat list \<Rightarrow> py_error + string ndarray" where
  "get_resistance_matrix_str components nedges indr indi indcap =
     (case fill_diag_name [] components indr (np_full nedges nedges []) of
        Inl e \<Rightarrow> Inl e | Inr Rmat_r_str \<Rightarrow>
      case fill_diag (to_S500 ''1'') indi (np_full nedges nedges []) of
        Inl e \<Rightarrow> Inl e | Inr Rmat_i_str \<Rightarrow>
      case fill_diag (to_S500 ''1'') indcap (np_full nedges nedges []) of
        Inl e \<Rightarrow> Inl e | Inr Rmat_cap_str \<Rightarrow>
      Inr (np_add (@) (np_add (@) Rmat_r_str Rmat_i_str) Rmat_cap_str))"

text \<open>The unused arrays \<open>Gmat_v_re\<close> and \<open>Gmat_v_im\<close> of the source have no effect.\<close>

definition get_conductance_matrix ::
  "nat \<Rightarrow> nat list \<Rightarrow> nat list \<Rightarrow> nat list \<Rightarrow> py_error + real ndarray" where
  "get_conductance_matrix nedges indr indv indInd =
     (case fill_diag (- 1) indr (np_full nedges nedges 0) of Inl e \<Rightarrow> Inl e | Inr Gmat_r \<Rightarrow>
      case fill_diag 1 indv (np_full nedges nedges 0) of Inl e \<Rightarrow> Inl e | Inr Gmat_v \<Rightarrow>
      case fill_diag 1 indInd (np_full nedges nedges 0) of Inl e \<Rightarrow> Inl e | Inr Gmat_ind \<Rightarrow>
      Inr (np_add (+) (np_add (+) Gmat_r Gmat_v) Gmat_ind))"

definition get_conductance_matrix_str ::
  "nat \<Rightarrow> nat list \<Rightarrow> nat list \<Rightarrow> nat list \<Rightarrow> py_error + string ndarray" where
  "get_conductance_matrix_str nedges indr indv indInd =
     (case fill_diag (to_S500 ''-1'') indr (np_full nedges nedges []) of
        Inl e \<Rightarrow> Inl e | Inr Gmat_r_str \<Rightarrow>
      case fill_diag (to_S500 ''1'') indv (np_full nedges nedges []) of
        Inl e \<Rightarrow> Inl e | Inr Gmat_v_str \<Rightarrow>
      case fill_diag (to_S500 ''1'') indInd (np_full nedges nedges []) of
        Inl e \<Rightarrow> Inl e | Inr Gmat_ind_str \<Rightarrow>
      Inr (np_add (@) (np_add (@) Gmat_r_str Gmat_v_str) Gmat_ind_str))"

definition get_inductance_matrix ::
  "component list \<Rightarrow> nat \<Rightarrow> nat list \<Rightarrow> py_error + real ndarray" where
  "get_inductance_matrix components nedges indInd =
     fill_diag_neg_value components indInd (np_full nedges nedges 0)"

definition get_inductance_matrix_str ::
  "component list \<Rightarrow> nat \<Rightarrow> nat list \<Rightarrow> py_error + string ndarray" where
  "get_inductance_matrix_str components nedges indInd =
     fill_diag_name ''-'' components indInd (np_full nedges nedges [])"

definition get_capacitance_matrix ::
  "component list \<Rightarrow> nat \<Rightarrow> nat list \<Rightarrow> py_error + real ndarray" where
  "get_capacitance_matrix components nedges indcap =
     fill_diag_neg_value components indcap (np_full nedges nedges 0)"

definition get_capacitance_matrix_str ::
  "component list \<Rightarrow> nat \<Rightarrow> nat list \<Rightarrow> py_error + string ndarray" where
  "get_capacitance_matrix_str components nedges indcap =
     fill_diag_name ''-'' components indcap (np_full nedges nedges [])"

text \<open>The real number a value holds (0 when it holds none), to state results with.\<close>

fun the_float :: "pyval \<Rightarrow> real" where
  "the_float (PyFloat v) = v"
| "the_float _ = 0"

fun is_float :: "pyval \<Rightarrow> bool" where
  "is_float (PyFloat v) = True"
| "is_float _ = False"

text \<open>An array is diagonal with the diagonal entries \<open>d\<close>.\<close>

definition diagonal_with :: "real ndarray \<Rightarrow> nat \<Rightarrow> (nat \<Rightarrow> real) \<Rightarrow> bool" where
  "diagonal_with M n d = (M = tabulate n n (\<lambda>i j. if i = j then d i else 0))"

section \<open>The source vector\<close>

text \<open>\<open>v[i] = x\<close> on an array of shape \<open>(n, 1)\<close>: the row \<open>i\<close> is filled with \<open>x\<close>.\<close>

definition set_row :: "'a ndarray \<Rightarrow> int \<Rightarrow> 'a \<Rightarrow> py_error + 'a ndarray" where
  "set_row M i v =
     (case np_index (nrows M) i of Inl e \<Rightarrow> Inl e
      | Inr r \<Rightarrow> Inr (NDArray (ncols M) ((rows M)[r := replicate (ncols M) v])))"

text \<open>\<open>re + 1j * im\<close> for two float64 arrays of one shape.\<close>

definition np_merge :: "real ndarray \<Rightarrow> real ndarray \<Rightarrow> complex ndarray" where
  "np_merge re_part im_part =
     NDArray (ncols re_part) (map2 (map2 Complex) (rows re_part) (rows im_part))"

text \<open>
  The variables of one source loop of \<open>get_rhs\<close>: the vector \<open>rhs_i\<close> (or \<open>rhs_v\<close>), the
  accumulators \<open>rhs_i_re\<close> and \<open>rhs_i_im\<close>, and \<open>complex_switch\<close>. The vector is float64
  until the first complex source rebinds it to a complex array; both are kept as arrays of
  complex numbers, a float64 cell \<open>x\<close> being \<open>of_real x\<close>. The accumulators are unbound
  until the branch under \<open>complex_switch\<close> creates them; they are never read before.
\<close>

record rhs_state =
  rhs_vec :: "complex ndarray"
  rhs_re :: "real ndarray"
  rhs_im :: "real ndarray"
  complex_switch :: bool

definition rhs_init :: "nat \<Rightarrow> rhs_state" where
  "rhs_init nedges =
     \<lparr>rhs_vec = np_full nedges 1 0, rhs_re = NDArray 1 [], rhs_im = NDArray 1 [],
      complex_switch = True\<rparr>"

text \<open>
  The body of \<open>for i in indi\<close>. In the complex branch the vector is rebuilt from the two
  accumulators alone. A \<open>None\<close> value is stored as NaN (see \<open>NotANumber\<close>).
\<close>

definition rhs_i_body :: "component list \<Rightarrow> nat \<Rightarrow> nat \<Rightarrow> rhs_state \<Rightarrow> py_error + rhs_state" where
  "rhs_i_body components nedges i st =
     (case py_list_get components i of Inl e \<Rightarrow> Inl e
      | Inr c \<Rightarrow>
        (case cvalue c of
           PyComplex z \<Rightarrow>
             (let st1 = (if complex_switch st
                         then st\<lparr>rhs_re := np_full nedges 1 0, rhs_im := np_full nedges 1 0,
                                 complex_switch := False\<rparr>
                         else st)
              in case set_row (rhs_re st1) (int i) (Re z) of Inl e \<Rightarrow> Inl e
                 | Inr rhs_i_re \<Rightarrow>
                   (case set_row (rhs_im st1) (int i) (Im z) of Inl e \<Rightarrow> Inl e
                    | Inr rhs_i_im \<Rightarrow>
                        Inr (st1\<lparr>rhs_re := rhs_i_re, rhs_im := rhs_i_im,
                                 rhs_vec := np_merge rhs_i_re rhs_i_im\<rparr>)))
         | PyFloat v \<Rightarrow>
             (case set_row (rhs_vec st) (int i) (of_real v) of Inl e \<Rightarrow> Inl e
              | Inr rhs_i \<Rightarrow> Inr (st\<lparr>rhs_vec := rhs_i\<rparr>))
         | PyNone \<Rightarrow>
             (case set_row (rhs_vec st) (int i) 0 of Inl e \<Rightarrow> Inl e
              | Inr _ \<Rightarrow> Inl NotANumber)))"

text \<open>The body of \<open>for i in indv\<close>: the same with every stored number negated.\<close>

definition rhs_v_body :: "component list \<Rightarrow> nat \<Rightarrow> nat \<Rightarrow> rhs_state \<Rightarrow> py_error + rhs_state" where
  "rhs_v_body components nedges i st =
     (case py_list_get components i of Inl e \<Rightarrow> Inl e
      | Inr c \<Rightarrow>
        (case cvalue c of
           PyComplex z \<Rightarrow>
             (let st1 = (if complex_switch st
                         then st\<lparr>rhs_re := np_full nedges 1 0, rhs_im := np_full nedges 1 0,
                                 complex_switch := False\<rparr>
                         else st)
              in case set_row (rhs_re st1) (int i) (- Re z) of Inl e \<Rightarrow> Inl e
                 | Inr rhs_v_re \<Rightarrow>
                   (case set_row (rhs_im st1) (int i) (- Im z) of Inl e \<Rightarrow> Inl e
                    | Inr rhs_v_im \<Rightarrow>
                        Inr (st1\<lparr>rhs_re := rhs_v_re, rhs_im := rhs_v_im,
                                 rhs_vec := np_merge rhs_v_re rhs_v_im\<rparr>)))
         | PyFloat v \<Rightarrow>
             (case set_row (rhs_vec st) (int i) (of_real (- v)) of Inl e \<Rightarrow> Inl e
              | Inr rhs_v \<Rightarrow> Inr (st\<lparr>rhs_vec := rhs_v\<rparr>))
         | PyNone \<Rightarrow> Inl TypeError))"

definition get_rhs ::
  "component list \<Rightarrow> nat \<Rightarrow> nat list \<Rightarrow> nat list \<Rightarrow> py_error + complex ndarray" where
  "get_rhs components nedges indi indv =
     (case for_loop indi (rhs_i_body components nedges) (rhs_init nedges) of
        Inl e \<Rightarrow> Inl e | Inr st_i \<Rightarrow>
      case for_loop indv (rhs_v_body components nedges) (rhs_init nedges) of
        Inl e \<Rightarrow> Inl e | Inr st_v \<Rightarrow>
      Inr (np_add (+) (rhs_vec st_v) (rhs_vec st_i)))"

text \<open>\<open>for i in ind: v[i] = pre + components[i].name\<close>, on an \<open>S500\<close> array.\<close>

definition fill_rows_name ::
  "string \<Rightarrow> component list \<Rightarrow> nat list \<Rightarrow> string ndarray \<Rightarrow> py_error + string ndarray" where
  "fill_rows_name pre components ind M =
     for_loop ind
       (\<lambda>i A. case py_list_get components i of Inl e \<Rightarrow> Inl e
              | Inr c \<Rightarrow> set_row A (int i) (to_S500 (pre @ name c))) M"

definition get_rhs_str ::
  "component list \<Rightarrow> nat \<Rightarrow> nat list \<Rightarrow> nat list \<Rightarrow> py_error + string ndarray" where
  "get_rhs_str components nedges indi indv =
     (case fill_rows_name [] components indi (np_full nedges 1 []) of
        Inl e \<Rightarrow> Inl e | Inr rhs_i_str \<Rightarrow>
      case fill_rows_name ''-'' components indv (np_full nedges 1 []) of
        Inl e \<Rightarrow> Inl e | Inr rhs_v_str \<Rightarrow>
      Inr (np_add (@) rhs_v_str rhs_i_str))"

text \<open>Two current sources: a real one followed by a complex one.\<close>

definition mixed_sources :: "component list" where
  "mixed_sources =
     [\<lparr>cls = cls_I, name = ''I1'', pin1 = 1, pin2 = 2, cvalue = PyFloat 5\<rparr>,
      \<lparr>cls = cls_I, name = ''I2'', pin1 = 2, pin2 = 1, cvalue = PyComplex (Complex 1 2)\<rparr>]"

section \<open>The tableau assembler\<close>

text \<open>
  \<open>np.block\<close> on a list of arrays joins them side by side and needs one number of rows; on
  a list of one-element lists it stacks them and needs one number of columns. A mismatch is
  a \<open>ValueError\<close>, as is an empty list.
\<close>

definition np_hstack2 :: "'a ndarray \<Rightarrow> 'a ndarray \<Rightarrow> py_error + 'a ndarray" where
  "np_hstack2 A B =
     (if nrows A = nrows B
      then Inr (NDArray (ncols A + ncols B) (map2 (@) (rows A) (rows B)))
      else Inl ValueError)"

definition np_vstack2 :: "'a ndarray \<Rightarrow> 'a ndarray \<Rightarrow> py_error + 'a ndarray" where
  "np_vstack2 A B =
     (if ncols A = ncols B then Inr (NDArray (ncols A) (rows A @ rows B)) else Inl ValueError)"

fun np_hstack :: "'a ndarray list \<Rightarrow> py_error + 'a ndarray" where
  "np_hstack [] = Inl ValueError"
| "np_hstack [A] = Inr A"
| "np_hstack (A # As) = (case np_hstack As of Inl e \<Rightarrow> Inl e | Inr B \<Rightarrow> np_hstack2 A B)"

fun np_vstack :: "'a ndarray list \<Rightarrow> py_error + 'a ndarray" where
  "np_vstack [] = Inl ValueError"
| "np_vstack [A] = Inr A"
| "np_vstack (A # As) = (case np_vstack As of Inl e \<Rightarrow> Inl e | Inr B \<Rightarrow> np_vstack2 A B)"

definition np_transpose :: "'a ndarray \<Rightarrow> 'a ndarray" where
  "np_transpose M = NDArray (nrows M) (map (\<lambda>j. map (\<lambda>row. row ! j) (rows M)) [0..<ncols M])"

text \<open>\<open>-np.eye(n, n)\<close>.\<close>

definition np_neg_eye :: "nat \<Rightarrow> 'a::{zero,one,uminus} ndarray" where
  "np_neg_eye n = tabulate n n (\<lambda>i j. if i = j then - 1 else 0)"

text \<open>
  \<open>num_nodes\<close> is a length; \<open>num_nodes - 1\<close> is negative for \<open>num_nodes = 0\<close>, and
  \<open>np.zeros\<close> then raises \<open>ValueError\<close> before anything is assembled. The arrays may hold
  any numbers: float64 for the matrices, float64 or complex for the source vector.
\<close>

definition get_tableau_matrix ::
  "'a::{zero,one,uminus} ndarray \<Rightarrow> 'a ndarray \<Rightarrow> 'a ndarray \<Rightarrow> 'a ndarray \<Rightarrow> 'a ndarray
     \<Rightarrow> 'b::zero ndarray \<Rightarrow> nat \<Rightarrow> nat
     \<Rightarrow> py_error + ('a ndarray \<times> 'a ndarray \<times> 'b ndarray)" where
  "get_tableau_matrix Amat Rmat Gmat Lmat Cmat fvec num_nodes num_edges =
     (if num_nodes = 0 then Inl ValueError
      else
       let n1 = num_nodes - 1 in
       case np_hstack [Amat, np_full n1 num_edges 0, np_full n1 n1 0] of
         Inl e \<Rightarrow> Inl e | Inr M_kcl \<Rightarrow>
       case np_hstack [np_full num_edges num_edges 0, np_neg_eye num_edges, np_transpose Amat] of
         Inl e \<Rightarrow> Inl e | Inr M_kvl \<Rightarrow>
       case np_hstack [Rmat, Gmat, np_full num_edges n1 0] of
         Inl e \<Rightarrow> Inl e | Inr M_comp \<Rightarrow>
       case np_vstack [M_kcl, M_kvl, M_comp] of
         Inl e \<Rightarrow> Inl e | Inr Mmat1 \<Rightarrow>
       case np_vstack [np_full n1 1 0, np_full num_edges 1 0, fvec] of
         Inl e \<Rightarrow> Inl e | Inr bvec \<Rightarrow>
       case np_hstack [Lmat, Cmat, np_full num_edges n1 0] of
         Inl e \<Rightarrow> Inl e | Inr M2_comp \<Rightarrow>
       case np_vstack [np_full (num_edges + n1) (2 * num_edges + n1) 0, M2_comp] of
         Inl e \<Rightarrow> Inl e | Inr Mmat2 \<Rightarrow>
       Inr (Mmat1, Mmat2, bvec))"

text \<open>
  The symbolic twin joins \<open>S\<close> arrays with float64 arrays; \<open>np.block\<close> then writes every
  float as a byte string: \<open>0.0\<close> for the zeros, and \<open>-1.0\<close> on and \<open>-0.0\<close> off the diagonal of
  \<open>-np.eye\<close>.
\<close>

definition np_neg_eye_str :: "nat \<Rightarrow> string ndarray" where
  "np_neg_eye_str n = tabulate n n (\<lambda>i j. if i = j then ''-1.0'' else ''-0.0'')"

text \<open>The clean-up of the source vector: an empty cell, \<open>0.0\<close> and \<open>-0.0\<close> become \<open>0\<close>.\<close>

definition canon_zero :: "string \<Rightarrow> string" where
  "canon_zero s = (if s = [] \<or> s = ''0.0'' \<or> s = ''-0.0'' then ''0'' else s)"

text \<open>
  The clean-up of a matrix cell: the three tests of the loop body in their order, each on
  the cell as the one before left it.
\<close>

definition canon_cell :: "string \<Rightarrow> string" where
  "canon_cell s =
     (let s1 = (if s = [] \<or> s = ''-0.0'' \<or> s = ''0.0'' then ''0'' else s);
          s2 = (if s1 = ''-1.0'' then ''-1'' else s1);
          s3 = (if s2 = ''1.0'' then ''1'' else s2)
      in s3)"

text \<open>A loop that rewrites every cell of an array by \<open>f\<close>, each cell from itself alone.\<close>

definition np_map :: "('a \<Rightarrow> 'b) \<Rightarrow> 'a ndarray \<Rightarrow> 'b ndarray" where
  "np_map f M = NDArray (ncols M) (map (map f) (rows M))"

text \<open>
  \<open>fvec_str[i].item()\<close> needs a row of one cell, else it raises \<open>ValueError\<close>; the vector
  that \<open>get_rhs_str\<close> builds has one column.
\<close>

definition get_tableau_matrix_str ::
  "string ndarray \<Rightarrow> string ndarray \<Rightarrow> string ndarray \<Rightarrow> string ndarray \<Rightarrow> string ndarray
     \<Rightarrow> string ndarray \<Rightarrow> nat \<Rightarrow> nat
     \<Rightarrow> py_error + (string ndarray \<times> string ndarray \<times> string ndarray)" where
  "get_tableau_matrix_str Amat_str Rmat_str Gmat_str Lmat_str Cmat_str fvec_str numnodes numedges =
     (if numnodes = 0 then Inl ValueError
      else
       let n1 = numnodes - 1 in
       case np_hstack [Amat_str, np_full n1 numedges ''0.0'', np_full n1 n1 ''0.0''] of
         Inl e \<Rightarrow> Inl e | Inr M_kcl_str \<Rightarrow>
       case np_hstack [np_full numedges numedges ''0.0'', np_neg_eye_str numedges,
                       np_transpose Amat_str] of
         Inl e \<Rightarrow> Inl e | Inr M_kvl_str \<Rightarrow>
       case np_hstack [Rmat_str, Gmat_str, np_full numedges n1 ''0.0''] of
         Inl e \<Rightarrow> Inl e | Inr M_comp_str \<Rightarrow>
       case np_vstack [M_kcl_str, M_kvl_str, M_comp_str] of
         Inl e \<Rightarrow> Inl e | Inr Mmat1_str \<Rightarrow>
       if 0 < nrows fvec_str \<and> ncols fvec_str \<noteq> 1 then Inl ValueError
       else
       case np_vstack [np_full n1 1 ''0.0'', np_full numedges 1 ''0.0'',
                       np_map canon_zero fvec_str] of
         Inl e \<Rightarrow> Inl e | Inr bvec_str \<Rightarrow>
       case np_hstack [Lmat_str, Cmat_str, np_full numedges n1 ''0.0''] of
         Inl e \<Rightarrow> Inl e | Inr M2_comp_str \<Rightarrow>
       case np_vstack [np_full (numedges + n1) (2 * numedges + n1) ''0.0'', M2_comp_str] of
         Inl e \<Rightarrow> Inl e | Inr Mmat2_str \<Rightarrow>
       Inr (np_map canon_cell Mmat1_str, np_map canon_cell Mmat2_str,
            np_map canon_zero bvec_str))"

text \<open>The cell \<open>(i, j)\<close> of an array.\<close>

definition cell :: "'a ndarray \<Rightarrow> nat \<Rightarrow> nat \<Rightarrow> 'a" where
  "cell M i j = rows M ! i ! j"

text \<open>
  The three blocks in the words of the specification, for row-block heights \<open>n1\<close>, \<open>e\<close>,
  \<open>e\<close> and column-block widths \<open>e\<close>, \<open>e\<close>, \<open>n1\<close>: the stiffness matrix
  \<open>[[A, 0, 0], [0, -I, transpose A], [R, G, 0]]\<close>, the damping matrix that is zero but for its
  bottom row-block \<open>[L, C, 0]\<close>, and the source vector \<open>[0; 0; f]\<close>.
\<close>

definition stiffness_spec ::
  "'a::{zero,one,uminus} ndarray \<Rightarrow> 'a ndarray \<Rightarrow> 'a ndarray \<Rightarrow> nat \<Rightarrow> nat \<Rightarrow> 'a ndarray" where
  "stiffness_spec Amat Rmat Gmat n1 e =
     tabulate (n1 + e + e) (e + e + n1)
       (\<lambda>i j.
          if i < n1 then (if j < e then cell Amat i j else 0)
          else if i < n1 + e then
            (if j < e then 0
             else if j < e + e then (if j - e = i - n1 then - 1 else 0)
             else cell Amat (j - (e + e)) (i - n1))
          else
            (if j < e then cell Rmat (i - (n1 + e)) j
             else if j < e + e then cell Gmat (i - (n1 + e)) (j - e)
             else 0))"

definition damping_spec :: "'a::zero ndarray \<Rightarrow> 'a ndarray \<Rightarrow> nat \<Rightarrow> nat \<Rightarrow> 'a ndarray" where
  "damping_spec Lmat Cmat n1 e =
     tabulate (n1 + e + e) (e + e + n1)
       (\<lambda>i j.
          if i < n1 + e then 0
          else if j < e then cell Lmat (i - (n1 + e)) j
          else if j < e + e then cell Cmat (i - (n1 + e)) (j - e)
          else 0)"

definition source_spec :: "'b::zero ndarray \<Rightarrow> nat \<Rightarrow> nat \<Rightarrow> 'b ndarray" where
  "source_spec fvec n1 e =
     tabulate (n1 + e + e) 1 (\<lambda>i j. if i < n1 + e then 0 else cell fvec (i - (n1 + e)) j)"

section \<open>The two tracks side by side\<close>

text \<open>
  The matrix-building steps of \<open>solve_circuit\<close>, between its guard and the linear solve:
  node and edge count, indices, the incidence matrix, the four branch matrices, the source
  vector and the tableau.
\<close>

definition build_numeric_system ::
  "component list \<Rightarrow> int
     \<Rightarrow> py_error + (real ndarray \<times> real ndarray \<times> complex ndarray)" where
  "build_numeric_system components ref_node =
     (let num_nodes = get_num_nodes components;
          num_edges = get_num_edges components
      in case get_indices components of
        (indr, indv, indi, indInd, indcap, indcelm) \<Rightarrow>
          (case get_incidence_matrix components num_nodes num_edges ref_node of
             Inl e \<Rightarrow> Inl e | Inr A \<Rightarrow>
           case get_resistance_matrix components num_edges indr indi indcap of
             Inl e \<Rightarrow> Inl e | Inr R \<Rightarrow>
           case get_conductance_matrix num_edges indr indv indInd of
             Inl e \<Rightarrow> Inl e | Inr G \<Rightarrow>
           case get_inductance_matrix components num_edges indInd of
             Inl e \<Rightarrow> Inl e | Inr L \<Rightarrow>
           case get_capacitance_matrix components num_edges indcap of
             Inl e \<Rightarrow> Inl e | Inr C \<Rightarrow>
           case get_rhs components num_edges indi indv of
             Inl e \<Rightarrow> Inl e | Inr f \<Rightarrow>
           get_tableau_matrix A R G L C f num_nodes num_edges))"

text \<open>The same steps of \<open>generate_elmer_circuits\<close>, on the symbolic track.\<close>

definition build_symbolic_system ::
  "component list \<Rightarrow> int
     \<Rightarrow> py_error + (string ndarray \<times> string ndarray \<times> string ndarray)" where
  "build_symbolic_system components ref_node =
     (let num_nodes = get_num_nodes components;
          num_edges = get_num_edges components
      in case get_indices components of
        (indr, indv, indi, indInd, indcap, indcelm) \<Rightarrow>
          (case get_incidence_matrix_str components num_nodes num_edges ref_node of
             Inl e \<Rightarrow> Inl e | Inr A_str \<Rightarrow>
           case get_resistance_matrix_str components num_edges indr indi indcap of
             Inl e \<Rightarrow> Inl e | Inr R_str \<Rightarrow>
           case get_conductance_matrix_str num_edges indr indv indInd of
             Inl e \<Rightarrow> Inl e | Inr G_str \<Rightarrow>
           case get_inductance_matrix_str components num_edges indInd of
             Inl e \<Rightarrow> Inl e | Inr L_str \<Rightarrow>
           case get_capacitance_matrix_str components num_edges indcap of
             Inl e \<Rightarrow> Inl e | Inr C_str \<Rightarrow>
           case get_rhs_str components num_edges indi indv of
             Inl e \<Rightarrow> Inl e | Inr f_str \<Rightarrow>
           get_tableau_matrix_str A_str R_str G_str L_str C_str f_str num_nodes num_edges))"

text \<open>
  A text token is zero when it is empty or one of \<open>0\<close>, \<open>0.0\<close>, \<open>-0.0\<close>, the cells that
  \<open>get_tableau_matrix_str\<close> writes as \<open>0\<close>. The sign of a token is 0 for a zero token, \<open>-1\<close>
  for another token with a leading \<open>-\<close>, and 1 otherwise.
\<close>

definition tok_zero :: "string \<Rightarrow> bool" where
  "tok_zero s = (s = [] \<or> s = ''0'' \<or> s = ''0.0'' \<or> s = ''-0.0'')"

definition tok_sign :: "string \<Rightarrow> real" where
  "tok_sign s = (if tok_zero s then 0 else if hd s = CHR ''-'' then - 1 else 1)"

text \<open>
  A symbolic array agrees with a numeric one: same shape, and in every cell the sign of the
  token is the sign of the number, read through \<open>val\<close> (the identity on a float64 array,
  the real part on the source vector).
\<close>

definition agree_by :: "('a \<Rightarrow> real) \<Rightarrow> string ndarray \<Rightarrow> 'a ndarray \<Rightarrow> bool" where
  "agree_by val S N =
     (ncols S = ncols N
      \<and> list_all2 (list_all2 (\<lambda>t x. tok_sign t = sgn (val x))) (rows S) (rows N))"

text \<open>Both builders return, and their arrays agree.\<close>

fun agree_res ::
  "('a \<Rightarrow> real) \<Rightarrow> py_error + string ndarray \<Rightarrow> py_error + 'a ndarray \<Rightarrow> bool" where
  "agree_res val (Inr S) (Inr N) = agree_by val S N"
| "agree_res val _ _ = False"

fun agree_systems ::
  "py_error + (string ndarray \<times> string ndarray \<times> string ndarray)
     \<Rightarrow> py_error + (real ndarray \<times> real ndarray \<times> complex ndarray) \<Rightarrow> bool" where
  "agree_systems (Inr (M1_str, M2_str, b_str)) (Inr (M1, M2, b)) =
     (agree_by (\<lambda>x. x) M1_str M1 \<and> agree_by (\<lambda>x. x) M2_str M2 \<and> agree_by Re b_str b)"
| "agree_systems _ _ = False"

text \<open>A name that is not empty and starts with neither \<open>-\<close> nor \<open>0\<close>.\<close>

definition plain_name :: "string \<Rightarrow> bool" where
  "plain_name s = (s \<noteq> [] \<and> hd s \<noteq> CHR ''-'' \<and> hd s \<noteq> CHR ''0'')"

fun positive_value :: "pyval \<Rightarrow> bool" where
  "positive_value (PyFloat v) = (0 < v)"
| "positive_value _ = False"

text \<open>The classes whose name or value enters a matrix.\<close>

definition lumped :: "component \<Rightarrow> bool" where
  "lumped c = (cls c = cls_R \<or> cls c = cls_V \<or> cls c = cls_I \<or> cls c = cls_L \<or> cls c = cls_C)"

text \<open>One current source of \<open>-2\<close> A.\<close>

definition negative_source :: "component list" where
  "negative_source =
     [\<lparr>cls = cls_I, name = ''I1'', pin1 = 1, pin2 = 2, cvalue = PyFloat (- 2)\<rparr>]"

section \<open>Example circuits\<close>

text \<open>Small circuits on which the results below are evaluated.\<close>

definition example_circuit :: "component list" where
  "example_circuit =
     [\<lparr>cls = cls_V, name = ''V1'', pin1 = 1, pin2 = 2, cvalue = PyFloat 1\<rparr>,
      \<lparr>cls = cls_R, name = ''R1'', pin1 = 1, pin2 = 3, cvalue = PyFloat 10\<rparr>,
      \<lparr>cls = cls_L, name = ''L1'', pin1 = 3, pin2 = 2, cvalue = PyFloat 2\<rparr>]"

definition example_rlc :: "component list" where
  "example_rlc =
     [\<lparr>cls = cls_I, name = ''I1'', pin1 = 2, pin2 = 1, cvalue = PyFloat 2\<rparr>,
      \<lparr>cls = cls_R, name = ''R1'', pin1 = 1, pin2 = 3, cvalue = PyFloat 10\<rparr>,
      \<lparr>cls = cls_L, name = ''L1'', pin1 = 3, pin2 = 4, cvalue = PyFloat 2\<rparr>,
      \<lparr>cls = cls_C, name = ''C1'', pin1 = 4, pin2 = 2, cvalue = PyFloat (1 / 2)\<rparr>]"

definition pin_zero_circuit :: "component list" where
  "pin_zero_circuit =
     [\<lparr>cls = cls_R, name = ''R1'', pin1 = 0, pin2 = 1, cvalue = PyFloat 1\<rparr>]"

definition pin_high_circuit :: "component list" where
  "pin_high_circuit =
     [\<lparr>cls = cls_R, name = ''R1'', pin1 = 1, pin2 = 5, cvalue = PyFloat 1\<rparr>]"

definition single_resistor :: "component list" where
  "single_resistor =
     [\<lparr>cls = cls_R, name = ''R1'', pin1 = 1, pin2 = 2, cvalue = PyFloat 1\<rparr>]"


section \<open>Row reordering: \<open>elmer_format_matrix\<close>\<close>

text \<open>
  \<open>M[[z, v]] = M[[v, z]]\<close>: the right-hand side copies rows \<open>v\<close> and \<open>z\<close> (an
  \<open>IndexError\<close> when one is out of range), then row \<open>z\<close> receives the old row \<open>v\<close> and row
  \<open>v\<close> the old row \<open>z\<close>. The row indices come from \<open>enumerate\<close> and \<open>range\<close>, so they are
  natural numbers.
\<close>

definition swap_rows :: "'a ndarray \<Rightarrow> nat \<Rightarrow> nat \<Rightarrow> py_error + 'a ndarray" where
  "swap_rows M z v =
     (if z < nrows M \<and> v < nrows M
      then Inr (NDArray (ncols M) ((rows M)[z := rows M ! v, v := rows M ! z]))
      else Inl IndexError)"

definition swap_body ::
  "nat \<times> nat \<Rightarrow> 'a ndarray \<times> 'a ndarray \<times> 'a ndarray
     \<Rightarrow> py_error + ('a ndarray \<times> 'a ndarray \<times> 'a ndarray)" where
  "swap_body p st =
     (case p of (zrow, vcomprow) \<Rightarrow>
      case st of (elmer_Bmat, elmer_Amat, elmer_source) \<Rightarrow>
       (case swap_rows elmer_Bmat zrow vcomprow of Inl e \<Rightarrow> Inl e | Inr elmer_Bmat' \<Rightarrow>
        case swap_rows elmer_Amat zrow vcomprow of Inl e \<Rightarrow> Inl e | Inr elmer_Amat' \<Rightarrow>
        case swap_rows elmer_source zrow vcomprow of Inl e \<Rightarrow> Inl e | Inr elmer_source' \<Rightarrow>
          Inr (elmer_Bmat', elmer_Amat', elmer_source')))"

text \<open>The result is the triple \<open>(elmer_Amat, elmer_Bmat, elmer_source)\<close>, in that order.\<close>

definition elmer_format_matrix ::
  "'a ndarray \<Rightarrow> 'a ndarray \<Rightarrow> 'a ndarray \<Rightarrow> nat list \<Rightarrow> nat list
     \<Rightarrow> py_error + ('a ndarray \<times> 'a ndarray \<times> 'a ndarray)" where
  "elmer_format_matrix M1_str M2_str b_str vcomp_rows zero_rows =
     (case for_loop (zip zero_rows vcomp_rows) swap_body (M1_str, M2_str, b_str) of
        Inl e \<Rightarrow> Inl e
      | Inr (elmer_Bmat, elmer_Amat, elmer_source) \<Rightarrow> Inr (elmer_Amat, elmer_Bmat, elmer_source))"

text \<open>The permutation of row indices that the swaps of a list of pairs build.\<close>

definition swap_perm :: "(nat \<times> nat) list \<Rightarrow> nat \<Rightarrow> nat list" where
  "swap_perm ps n = fold (\<lambda>(z, v) p. p[z := p ! v, v := p ! z]) ps [0..<n]"

text \<open>A small reordering input: four rows, of which row 2 is a zero row.\<close>

definition example_M1_str :: "string ndarray" where
  "example_M1_str = NDArray 3 [[''1'', ''1'', ''0''], [''0'', ''-1'', ''1''],
     [''0'', ''0'', ''0''], [''0'', ''1'', ''0'']]"

definition example_M2_str :: "string ndarray" where
  "example_M2_str = NDArray 3 [[''0'', ''0'', ''0''], [''-L1'', ''0'', ''0''],
     [''0'', ''0'', ''0''], [''0'', ''-C1'', ''0'']]"

definition example_b_str :: "string ndarray" where
  "example_b_str = NDArray 1 [[''0''], [''0''], [''0''], [''0'']]"


section \<open>Properties of the row reordering\<close>

lemma swap_rows_map:
  assumes "rows M = map ((!) xs) p" "z < length p" "v < length p"
  shows "swap_rows M z v = Inr (NDArray (ncols M) (map ((!) xs) (p[z := p ! v, v := p ! z])))"
  using assms by (simp add: swap_rows_def nrows_def map_update)

lemma swap_loop_perm:
  assumes "rows B = map ((!) xb) p" "rows A = map ((!) xa) p" "rows s = map ((!) xs) p"
    and "\<forall>(z, v)\<in>set ps. z < length p \<and> v < length p"
  shows "for_loop ps swap_body (B, A, s) =
     Inr (NDArray (ncols B) (map ((!) xb) (fold (\<lambda>(z, v) p. p[z := p ! v, v := p ! z]) ps p)),
          NDArray (ncols A) (map ((!) xa) (fold (\<lambda>(z, v) p. p[z := p ! v, v := p ! z]) ps p)),
          NDArray (ncols s) (map ((!) xs) (fold (\<lambda>(z, v) p. p[z := p ! v, v := p ! z]) ps p)))"
  using assms
proof (induction ps arbitrary: B A s p)
  case Nil
  then show ?case by (cases B; cases A; cases s) simp
next
  case (Cons q ps)
  obtain z v where q: "q = (z, v)" by (cases q)
  from Cons.prems(4) q have zv: "z < length p" "v < length p" by auto
  let ?p = "p[z := p ! v, v := p ! z]"
  have step: "swap_body (z, v) (B, A, s) =
      Inr (NDArray (ncols B) (map ((!) xb) ?p), NDArray (ncols A) (map ((!) xa) ?p),
           NDArray (ncols s) (map ((!) xs) ?p))"
    using Cons.prems(1-3) zv by (simp add: swap_body_def swap_rows_map)
  have rest: "\<forall>(z, v)\<in>set ps. z < length ?p \<and> v < length ?p"
    using Cons.prems(4) by auto
  show ?case
    using Cons.IH[where B = "NDArray (ncols B) (map ((!) xb) ?p)" and p = ?p
        and A = "NDArray (ncols A) (map ((!) xa) ?p)" and s = "NDArray (ncols s) (map ((!) xs) ?p)",
        OF _ _ _ rest]
    by (simp add: step q)
qed

lemma fold_swap_mset:
  "\<forall>(z, v)\<in>set ps. z < length p \<and> v < length p \<Longrightarrow>
   mset (fold (\<lambda>(z, v) p. p[z := p ! v, v := p ! z]) ps p) = mset p"
proof (induction ps arbitrary: p)
  case Nil
  then show ?case by simp
next
  case (Cons q ps)
  obtain z v where q: "q = (z, v)" by (cases q)
  from Cons.prems q have zv: "z < length p" "v < length p" by auto
  have "mset (p[z := p ! v, v := p ! z]) = mset p"
    using zv by (simp add: mset_swap)
  moreover have "\<forall>(a, b)\<in>set ps. a < length (p[z := p ! v, v := p ! z]) \<and> b < length (p[z := p ! v, v := p ! z])"
    using Cons.prems by auto
  ultimately show ?case using Cons.IH[of "p[z := p ! v, v := p ! z]"] by (simp add: q)
qed

lemma mset_map_nth_perm:
  assumes "mset p = mset [0..<length xs]"
  shows "mset (map ((!) xs) p) = mset xs"
proof -
  have "mset (map ((!) xs) p) = image_mset ((!) xs) (mset p)" by simp
  also have "\<dots> = image_mset ((!) xs) (mset [0..<length xs])" using assms by simp
  also have "\<dots> = mset (map ((!) xs) [0..<length xs])" by simp
  also have "\<dots> = mset xs" by (simp add: map_nth)
  finally show ?thesis .
qed


lemma elmer_format_matrix_swaps:
  assumes "nrows M1_str = n" "nrows M2_str = n" "nrows b_str = n"
    and "\<forall>(z, v)\<in>set (zip zero_rows vcomp_rows). z < n \<and> v < n"
  shows "elmer_format_matrix M1_str M2_str b_str vcomp_rows zero_rows =
      Inr (NDArray (ncols M2_str) (map ((!) (rows M2_str)) (swap_perm (zip zero_rows vcomp_rows) n)),
           NDArray (ncols M1_str) (map ((!) (rows M1_str)) (swap_perm (zip zero_rows vcomp_rows) n)),
           NDArray (ncols b_str) (map ((!) (rows b_str)) (swap_perm (zip zero_rows vcomp_rows) n)))"
proof -
  have a: "rows M1_str = map ((!) (rows M1_str)) [0..<n]"
    using assms(1) map_nth[of "rows M1_str"] by (simp add: nrows_def)
  have b: "rows M2_str = map ((!) (rows M2_str)) [0..<n]"
    using assms(2) map_nth[of "rows M2_str"] by (simp add: nrows_def)
  have c: "rows b_str = map ((!) (rows b_str)) [0..<n]"
    using assms(3) map_nth[of "rows b_str"] by (simp add: nrows_def)
  have d: "\<forall>(z, v)\<in>set (zip zero_rows vcomp_rows). z < length [0..<n] \<and> v < length [0..<n]"
    using assms(4) by simp
  show ?thesis
    unfolding elmer_format_matrix_def swap_perm_def
    by (simp add: swap_loop_perm[OF a b c d])
qed

lemma swap_perm_mset:
  assumes "\<forall>(z, v)\<in>set ps. z < n \<and> v < n"
  shows "mset (swap_perm ps n) = mset [0..<n]"
  unfolding swap_perm_def using assms by (intro fold_swap_mset) simp

lemma in_set_zip_bounds:
  assumes "\<forall>z\<in>set zs. z < n" "\<forall>v\<in>set vs. v < n"
  shows "\<forall>(z, v)\<in>set (zip zs vs). z < (n::nat) \<and> v < n"
  using assms by (auto dest: set_zip_leftD set_zip_rightD)

text \<open>
  C5. For all three inputs with \<open>n\<close> rows and all in-range index lists \<open>zero_rows\<close> and
  \<open>vcomp_rows\<close> (of equal length or not), \<open>elmer_format_matrix\<close> returns, and there is one
  permutation \<open>p\<close> of the row indices \<open>0..<n\<close> such that each output is its input with the
  rows read in the order \<open>p\<close>: the stiffness matrix, the damping matrix and the source vector
  are reordered by the same permutation, and the multiset of rows of each output equals that
  of its input.
\<close>

theorem elmer_format_matrix_row_permutation:
  assumes "nrows M1_str = n" "nrows M2_str = n" "nrows b_str = n"
    and "\<forall>z\<in>set zero_rows. z < n" and "\<forall>v\<in>set vcomp_rows. v < n"
  shows "\<exists>elmer_Amat elmer_Bmat elmer_source p.
      elmer_format_matrix M1_str M2_str b_str vcomp_rows zero_rows
        = Inr (elmer_Amat, elmer_Bmat, elmer_source)
      \<and> mset p = mset [0..<n]
      \<and> rows elmer_Bmat = map ((!) (rows M1_str)) p
      \<and> rows elmer_Amat = map ((!) (rows M2_str)) p
      \<and> rows elmer_source = map ((!) (rows b_str)) p
      \<and> mset (rows elmer_Bmat) = mset (rows M1_str)
      \<and> mset (rows elmer_Amat) = mset (rows M2_str)
      \<and> mset (rows elmer_source) = mset (rows b_str)
      \<and> ncols elmer_Bmat = ncols M1_str \<and> ncols elmer_Amat = ncols M2_str
      \<and> ncols elmer_source = ncols b_str"
proof -
  let ?p = "swap_perm (zip zero_rows vcomp_rows) n"
  have bounds: "\<forall>(z, v)\<in>set (zip zero_rows vcomp_rows). z < n \<and> v < n"
    using assms(4,5) by (rule in_set_zip_bounds)
  have p: "mset ?p = mset [0..<n]"
    using bounds by (rule swap_perm_mset)
  have m1: "mset (map ((!) (rows M1_str)) ?p) = mset (rows M1_str)"
    using p assms(1) by (intro mset_map_nth_perm) (simp add: nrows_def)
  have m2: "mset (map ((!) (rows M2_str)) ?p) = mset (rows M2_str)"
    using p assms(2) by (intro mset_map_nth_perm) (simp add: nrows_def)
  have m3: "mset (map ((!) (rows b_str)) ?p) = mset (rows b_str)"
    using p assms(3) by (intro mset_map_nth_perm) (simp add: nrows_def)
  show ?thesis
    using elmer_format_matrix_swaps[OF assms(1-3) bounds] p m1 m2 m3 by auto
qed

text \<open>The theorem at the four-row example, with \<open>vcomp_rows = [1]\<close> and \<open>zero_rows = [2]\<close>.\<close>

theorem elmer_format_matrix_row_permutation_witness:
  "\<exists>elmer_Amat elmer_Bmat elmer_source p.
      elmer_format_matrix example_M1_str example_M2_str example_b_str [1] [2]
        = Inr (elmer_Amat, elmer_Bmat, elmer_source)
      \<and> mset p = mset [0..<4]
      \<and> rows elmer_Bmat = map ((!) (rows example_M1_str)) p
      \<and> rows elmer_Amat = map ((!) (rows example_M2_str)) p
      \<and> rows elmer_source = map ((!) (rows example_b_str)) p
      \<and> mset (rows elmer_Bmat) = mset (rows example_M1_str)
      \<and> mset (rows elmer_Amat) = mset (rows example_M2_str)
      \<and> mset (rows elmer_source) = mset (rows example_b_str)
      \<and> ncols elmer_Bmat = ncols example_M1_str \<and> ncols elmer_Amat = ncols example_M2_str
      \<and> ncols elmer_source = ncols example_b_str"
  by (rule elmer_format_matrix_row_permutation)
    (simp_all add: nrows_def example_M1_str_def example_M2_str_def example_b_str_def)

text \<open>
  With two field-coupled-voltage rows \<open>[1, 3]\<close> and one zero row \<open>[2]\<close> the function raises
  nothing: \<open>zip\<close> stops at the shorter list, rows 2 and 1 are swapped and row 3 stays in place.
\<close>

theorem elmer_format_matrix_excess_unreported:
  "elmer_format_matrix example_M1_str example_M2_str example_b_str [1, 3] [2]
   = Inr (NDArray 3 [[''0'', ''0'', ''0''], [''0'', ''0'', ''0''], [''-L1'', ''0'', ''0''],
                     [''0'', ''-C1'', ''0'']],
          NDArray 3 [[''1'', ''1'', ''0''], [''0'', ''0'', ''0''], [''0'', ''-1'', ''1''],
                     [''0'', ''1'', ''0'']],
          NDArray 1 [[''0''], [''0''], [''0''], [''0'']])"
  by (simp add: elmer_format_matrix_def swap_body_def swap_rows_def nrows_def
      example_M1_str_def example_M2_str_def example_b_str_def)

text \<open>
  C4, as amended. When \<open>vcomp_rows\<close> is longer than \<open>zero_rows\<close> (the paired indices being in
  range), \<open>elmer_format_matrix\<close> reports no error: it returns the result of swapping only the
  first \<open>len(zero_rows)\<close> field-coupled-voltage rows, and the excess rows take no part in the
  reordering.
\<close>

theorem elmer_format_matrix_truncates:
  assumes "length zero_rows < length vcomp_rows"
    and "nrows M1_str = n" "nrows M2_str = n" "nrows b_str = n"
    and "\<forall>z\<in>set zero_rows. z < n"
    and "\<forall>v\<in>set (take (length zero_rows) vcomp_rows). v < n"
  shows "(\<exists>res. elmer_format_matrix M1_str M2_str b_str vcomp_rows zero_rows = Inr res)
     \<and> elmer_format_matrix M1_str M2_str b_str vcomp_rows zero_rows
       = elmer_format_matrix M1_str M2_str b_str (take (length zero_rows) vcomp_rows) zero_rows"
proof -
  have z: "zip zero_rows vcomp_rows = zip zero_rows (take (length zero_rows) vcomp_rows)"
    using zip_append1[of zero_rows "[]" vcomp_rows] by simp
  have bounds: "\<forall>(z, v)\<in>set (zip zero_rows vcomp_rows). z < n \<and> v < n"
    unfolding z using assms(5,6) by (rule in_set_zip_bounds)
  have eq: "elmer_format_matrix M1_str M2_str b_str vcomp_rows zero_rows
       = elmer_format_matrix M1_str M2_str b_str (take (length zero_rows) vcomp_rows) zero_rows"
    unfolding elmer_format_matrix_def using z by simp
  show ?thesis
    using elmer_format_matrix_swaps[OF assms(2-4) bounds] eq by simp
qed

text \<open>The theorem at the four-row example, with \<open>vcomp_rows = [1, 3]\<close> and \<open>zero_rows = [2]\<close>.\<close>

theorem elmer_format_matrix_truncates_witness:
  "(\<exists>res. elmer_format_matrix example_M1_str example_M2_str example_b_str [1, 3] [2]
      = Inr res)
   \<and> elmer_format_matrix example_M1_str example_M2_str example_b_str [1, 3] [2]
     = elmer_format_matrix example_M1_str example_M2_str example_b_str
         (take (length [2::nat]) [1, 3]) [2]"
  by (rule elmer_format_matrix_truncates[where n = 4])
    (simp_all add: nrows_def example_M1_str_def example_M2_str_def example_b_str_def)

section \<open>Properties of the array operations\<close>

lemma for_loop_append:
  "for_loop (xs @ ys) body s =
     (case for_loop xs body s of Inl e \<Rightarrow> Inl e | Inr s' \<Rightarrow> for_loop ys body s')"
  by (induction xs arbitrary: s) (auto split: sum.splits)

lemma comprehension_snoc:
  "comprehension (xs @ [x]) f =
     (case comprehension xs f of Inl e \<Rightarrow> Inl e
      | Inr ys \<Rightarrow> (case f x of Inl e \<Rightarrow> Inl e | Inr y \<Rightarrow> Inr (ys @ [y])))"
  by (induction xs) (auto split: sum.splits)

lemma pin_indices_eq:
  "pin_indices pin components e =
     (if e \<le> length components then Inr (map (\<lambda>c. pin c - 1) (take e components))
      else Inl IndexError)"
proof (induction e)
  case 0
  show ?case by (simp add: pin_indices_def)
next
  case (Suc e)
  have "pin_indices pin components (Suc e) =
      (case pin_indices pin components e of Inl err \<Rightarrow> Inl err
       | Inr ys \<Rightarrow> (case py_list_get components e of Inl err \<Rightarrow> Inl err
                    | Inr c \<Rightarrow> Inr (ys @ [pin c - 1])))"
    by (simp add: pin_indices_def comprehension_snoc split: sum.splits)
  then show ?case
    using Suc.IH by (auto simp: py_list_get_def take_Suc_conv_app_nth)
qed

lemma np_index_eq:
  "np_index n i = (if in_range n i then Inr (norm_index n i) else Inl IndexError)"
  by (auto simp: np_index_def in_range_def norm_index_def)

lemma norm_index_less: "in_range n i \<Longrightarrow> norm_index n i < n"
  by (auto simp: in_range_def norm_index_def)

lemma in_range_int [simp]: "in_range n (int j) \<longleftrightarrow> j < n"
  by (simp add: in_range_def)

lemma norm_index_int [simp]: "norm_index n (int j) = j"
  by (simp add: norm_index_def)

lemma tabulate_sel [simp]:
  "ncols (tabulate r c f) = c" "nrows (tabulate r c f) = r"
  "rows (tabulate r c f) = map (\<lambda>i. map (f i) [0..<c]) [0..<r]"
  by (simp_all add: tabulate_def nrows_def)

lemma tabulate_cong:
  "(\<And>a b. a < r \<Longrightarrow> b < c \<Longrightarrow> f a b = g a b) \<Longrightarrow> tabulate r c f = tabulate r c g"
  by (simp add: tabulate_def)

lemma np_full_tabulate: "np_full r c v = tabulate r c (\<lambda>_ _. v)"
  by (simp add: np_full_def tabulate_def map_replicate_trivial)

lemma set_cell_tabulate:
  assumes "j < c"
  shows "set_cell (tabulate r c f) i (int j) v =
     (if in_range r i
      then Inr (tabulate r c (\<lambda>a b. if a = norm_index r i \<and> b = j then v else f a b))
      else Inl IndexError)"
proof (cases "in_range r i")
  case False
  then show ?thesis by (simp add: set_cell_def np_index_eq)
next
  case True
  let ?k = "norm_index r i"
  have k: "?k < r" using True by (rule norm_index_less)
  have "(map (\<lambda>i. map (f i) [0..<c]) [0..<r])[?k := (map (f ?k) [0..<c])[j := v]]
      = map (\<lambda>a. map (\<lambda>b. if a = ?k \<and> b = j then v else f a b) [0..<c]) [0..<r]"
    using k assms by (auto intro!: nth_equalityI simp: nth_list_update)
  then show ?thesis
    using True k assms by (simp add: set_cell_def np_index_eq tabulate_def nrows_def)
qed

lemma fill_cells_tabulate:
  assumes "length idx = k" "k \<le> c"
  shows "fill_cells v (zip idx (map int [0..<k])) (tabulate r c f) =
     (if \<forall>i\<in>set idx. in_range r i
      then Inr (tabulate r c (\<lambda>a b. if b < k \<and> norm_index r (idx ! b) = a then v else f a b))
      else Inl IndexError)"
  using assms
proof (induction idx arbitrary: k rule: rev_induct)
  case Nil
  then show ?case by (simp add: fill_cells_def)
next
  case (snoc x xs)
  let ?m = "length xs"
  have k: "k = Suc ?m" using snoc.prems(1) by simp
  have m: "?m < c" "?m \<le> c" using snoc.prems k by simp_all
  have z: "zip (xs @ [x]) (map int [0..<k]) = zip xs (map int [0..<?m]) @ [(x, int ?m)]"
    by (simp add: k)
  have IH: "fill_cells v (zip xs (map int [0..<?m])) (tabulate r c f) =
     (if \<forall>i\<in>set xs. in_range r i
      then Inr (tabulate r c (\<lambda>a b. if b < ?m \<and> norm_index r (xs ! b) = a then v else f a b))
      else Inl IndexError)"
    by (rule snoc.IH) (simp_all add: m)
  show ?case
  proof (cases "\<forall>i\<in>set xs. in_range r i")
    case False
    then show ?thesis using IH by (auto simp: z fill_cells_def for_loop_append)
  next
    case True
    note pre = True
    show ?thesis
    proof (cases "in_range r x")
      case False
      then show ?thesis
        using IH pre m by (simp add: z fill_cells_def for_loop_append set_cell_tabulate)
    next
      case True
      have "tabulate r c (\<lambda>a b. if a = norm_index r x \<and> b = ?m then v
                else if b < ?m \<and> norm_index r (xs ! b) = a then v else f a b)
          = tabulate r c (\<lambda>a b. if b < k \<and> norm_index r ((xs @ [x]) ! b) = a then v else f a b)"
        by (rule tabulate_cong) (auto simp: k nth_append less_Suc_eq)
      then show ?thesis
        using IH pre True m by (simp add: z fill_cells_def for_loop_append set_cell_tabulate)
    qed
  qed
qed

lemma np_add_tabulate:
  "np_add g (tabulate r c f1) (tabulate r c f2) = tabulate r c (\<lambda>a b. g (f1 a b) (f2 a b))"
  by (auto simp: np_add_def tabulate_def intro!: nth_equalityI)

lemma np_delete_row_tabulate:
  "np_delete_row (tabulate r c f) i =
     (if in_range r i
      then Inr (NDArray c (map (\<lambda>a. map (f a) [0..<c])
              ([0..<norm_index r i] @ [Suc (norm_index r i)..<r])))
      else Inl IndexError)"
  by (auto simp: np_delete_row_def np_index_eq take_map drop_map dest: norm_index_less)

section \<open>Properties of the incidence matrix\<close>

lemma incidence_core:
  assumes "length n1 = e" "length n2 = e"
  shows "(case fill_cells p (zip n1 (map int [0..<e])) (np_full n e z) of Inl err \<Rightarrow> Inl err
          | Inr P \<Rightarrow>
            (case fill_cells m (zip n2 (map int [0..<e])) (np_full n e z) of Inl err \<Rightarrow> Inl err
             | Inr Q \<Rightarrow> np_delete_row (np_add g P Q) i))
       = (if (\<forall>x\<in>set n1. in_range n x) \<and> (\<forall>x\<in>set n2. in_range n x) \<and> in_range n i
          then Inr (NDArray e (map (\<lambda>a. map (\<lambda>b. g (if norm_index n (n1 ! b) = a then p else z)
                                                  (if norm_index n (n2 ! b) = a then m else z)) [0..<e])
                     ([0..<norm_index n i] @ [Suc (norm_index n i)..<n])))
          else Inl IndexError)"
proof -
  have P: "fill_cells p (zip n1 (map int [0..<e])) (np_full n e z) =
     (if \<forall>x\<in>set n1. in_range n x
      then Inr (tabulate n e (\<lambda>a b. if norm_index n (n1 ! b) = a then p else z))
      else Inl IndexError)"
    unfolding np_full_tabulate fill_cells_tabulate[OF assms(1) order_refl]
    by (auto intro!: tabulate_cong)
  have Q: "fill_cells m (zip n2 (map int [0..<e])) (np_full n e z) =
     (if \<forall>x\<in>set n2. in_range n x
      then Inr (tabulate n e (\<lambda>a b. if norm_index n (n2 ! b) = a then m else z))
      else Inl IndexError)"
    unfolding np_full_tabulate fill_cells_tabulate[OF assms(2) order_refl]
    by (auto intro!: tabulate_cong)
  show ?thesis
    by (simp add: P Q np_add_tabulate np_delete_row_tabulate)
qed

lemma length_pins: "length (map (\<lambda>c. pin c - (1::int)) (take e cs)) = min (length cs) e"
  by simp

lemma get_incidence_matrix_eq:
  "get_incidence_matrix cs n e n_ref =
     (if e \<le> length cs \<and> (\<forall>c\<in>set (take e cs). in_range n (pin1 c - 1))
         \<and> (\<forall>c\<in>set (take e cs). in_range n (pin2 c - 1)) \<and> in_range n (n_ref - 1)
      then Inr (NDArray e (map (\<lambda>a. map (\<lambda>b.
                  (if norm_index n (pin1 (cs ! b) - 1) = a then 1 else 0)
                  + (if norm_index n (pin2 (cs ! b) - 1) = a then - 1 else 0)) [0..<e])
                ([0..<norm_index n (n_ref - 1)] @ [Suc (norm_index n (n_ref - 1))..<n])))
      else Inl IndexError)"
proof (cases "e \<le> length cs")
  case False
  then show ?thesis by (simp add: get_incidence_matrix_def pin_indices_eq)
next
  case True
  have l1: "length (map (\<lambda>c. pin1 c - 1) (take e cs)) = e"
    and l2: "length (map (\<lambda>c. pin2 c - 1) (take e cs)) = e"
    using True by simp_all
  show ?thesis
    using True
    by (simp add: get_incidence_matrix_def pin_indices_eq Let_def incidence_core[OF l1 l2]
        cong: map_cong)
qed

lemma get_incidence_matrix_str_eq:
  "get_incidence_matrix_str cs n e n_ref =
     (if e \<le> length cs \<and> (\<forall>c\<in>set (take e cs). in_range n (pin1 c - 1))
         \<and> (\<forall>c\<in>set (take e cs). in_range n (pin2 c - 1)) \<and> in_range n (n_ref - 1)
      then Inr (NDArray e (map (\<lambda>a. map (\<lambda>b.
                  (if norm_index n (pin1 (cs ! b) - 1) = a then ''1'' else [])
                  @ (if norm_index n (pin2 (cs ! b) - 1) = a then ''-1'' else [])) [0..<e])
                ([0..<norm_index n (n_ref - 1)] @ [Suc (norm_index n (n_ref - 1))..<n])))
      else Inl IndexError)"
proof (cases "e \<le> length cs")
  case False
  then show ?thesis by (simp add: get_incidence_matrix_str_def pin_indices_eq)
next
  case True
  have l1: "length (map (\<lambda>c. pin1 c - 1) (take e cs)) = e"
    and l2: "length (map (\<lambda>c. pin2 c - 1) (take e cs)) = e"
    using True by simp_all
  show ?thesis
    using True
    by (simp add: get_incidence_matrix_str_def pin_indices_eq Let_def incidence_core[OF l1 l2]
        to_S500_def cong: map_cong)
qed

lemma valid_pin_index:
  assumes "1 \<le> p" "p \<le> int n"
  shows "in_range n (p - 1)" "norm_index n (p - 1) = nat (p - 1)" "nat (p - 1) < n"
  using assms by (auto simp: in_range_def norm_index_def)

lemma incidence_spec_rows:
  assumes "1 \<le> n_ref" "n_ref \<le> int n"
  shows "incidence_spec cs n e n_ref =
      NDArray e (map (\<lambda>r. map (incidence_entry cs r) [0..<e])
                  ([0..<nat (n_ref - 1)] @ [Suc (nat (n_ref - 1))..<n]))"
proof -
  have "nat (n_ref - 1) < n" using assms by (rule valid_pin_index)
  then show ?thesis
    by (simp add: incidence_spec_def Let_def take_map drop_map)
qed

lemma get_incidence_matrix_valid:
  assumes "e \<le> length cs"
    and "\<forall>c\<in>set (take e cs). 1 \<le> pin1 c \<and> pin1 c \<le> int n \<and> 1 \<le> pin2 c \<and> pin2 c \<le> int n"
    and "1 \<le> n_ref" "n_ref \<le> int n"
  shows "get_incidence_matrix cs n e n_ref = Inr (incidence_spec cs n e n_ref)"
proof -
  have mem: "cs ! b \<in> set (take e cs)" if "b < e" for b
    using that assms(1) by (metis in_set_conv_nth length_take min.absorb2 nth_take)
  have cond: "(\<forall>c\<in>set (take e cs). in_range n (pin1 c - 1))"
    "(\<forall>c\<in>set (take e cs). in_range n (pin2 c - 1))" "in_range n (n_ref - 1)"
    using assms(2-4) by (auto intro: valid_pin_index(1))
  have cell: "(if norm_index n (pin1 (cs ! b) - 1) = a then 1 else 0)
       + (if norm_index n (pin2 (cs ! b) - 1) = a then - 1 else 0) = incidence_entry cs a b"
    if "b < e" for a b
  proof -
    from mem[OF that] assms(2)
    have p: "1 \<le> pin1 (cs ! b)" "pin1 (cs ! b) \<le> int n" "1 \<le> pin2 (cs ! b)" "pin2 (cs ! b) \<le> int n"
      by auto
    have "norm_index n (pin1 (cs ! b) - 1) = a \<longleftrightarrow> pin1 (cs ! b) - 1 = int a"
      using p by (auto simp: valid_pin_index(2))
    moreover have "norm_index n (pin2 (cs ! b) - 1) = a \<longleftrightarrow> pin2 (cs ! b) - 1 = int a"
      using p by (auto simp: valid_pin_index(2))
    ultimately show ?thesis by (simp add: incidence_entry_def)
  qed
  show ?thesis
    using assms(1) cond cell
    by (simp add: get_incidence_matrix_eq incidence_spec_rows[OF assms(3,4)]
        valid_pin_index(2)[OF assms(3,4)] cong: map_cong)
qed

lemma incidence_spec_shape:
  assumes "1 \<le> n_ref" "n_ref \<le> int n"
  shows "has_shape (incidence_spec cs n e n_ref) (n - 1) e"
proof -
  have "nat (n_ref - 1) < n" using assms by (rule valid_pin_index)
  then show ?thesis
    by (auto simp: incidence_spec_rows[OF assms] has_shape_def list_all_iff)
qed

text \<open>
  C3. For every component list whose terminal ids (of the \<open>num_edges\<close> components read) lie
  in \<open>1..num_nodes\<close> and every reference node in \<open>1..num_nodes\<close>, \<open>get_incidence_matrix\<close>
  returns the matrix of the specification: \<open>+1\<close> at row \<open>pin1 - 1\<close> and \<open>-1\<close> at row
  \<open>pin2 - 1\<close> of each column, added where they meet, with the row \<open>n_ref - 1\<close> deleted. It has
  shape \<open>(num_nodes - 1, num_edges)\<close>, and the column of a self-loop is zero throughout.
\<close>

theorem get_incidence_matrix_meets_spec:
  assumes "num_edges \<le> length components"
    and "\<forall>c\<in>set (take num_edges components).
           1 \<le> pin1 c \<and> pin1 c \<le> int num_nodes \<and> 1 \<le> pin2 c \<and> pin2 c \<le> int num_nodes"
    and "1 \<le> n_ref" "n_ref \<le> int num_nodes"
  shows "get_incidence_matrix components num_nodes num_edges n_ref
           = Inr (incidence_spec components num_nodes num_edges n_ref)
     \<and> has_shape (incidence_spec components num_nodes num_edges n_ref) (num_nodes - 1) num_edges
     \<and> (\<forall>c<num_edges. pin1 (components ! c) = pin2 (components ! c) \<longrightarrow>
          (\<forall>row\<in>set (rows (incidence_spec components num_nodes num_edges n_ref)). row ! c = 0))"
proof (intro conjI)
  show "get_incidence_matrix components num_nodes num_edges n_ref
           = Inr (incidence_spec components num_nodes num_edges n_ref)"
    using assms by (rule get_incidence_matrix_valid)
  show "has_shape (incidence_spec components num_nodes num_edges n_ref) (num_nodes - 1) num_edges"
    using assms(3,4) by (rule incidence_spec_shape)
  show "\<forall>c<num_edges. pin1 (components ! c) = pin2 (components ! c) \<longrightarrow>
          (\<forall>row\<in>set (rows (incidence_spec components num_nodes num_edges n_ref)). row ! c = 0)"
    by (auto simp: incidence_spec_rows[OF assms(3,4)] incidence_entry_def)
qed

text \<open>
  The theorem at a loop of a voltage source, a resistor and an inductor over three nodes,
  with node 2 as reference.
\<close>

theorem get_incidence_matrix_meets_spec_witness:
  "get_incidence_matrix example_circuit 3 3 2 = Inr (incidence_spec example_circuit 3 3 2)
   \<and> has_shape (incidence_spec example_circuit 3 3 2) (3 - 1) 3
   \<and> incidence_spec example_circuit 3 3 2 = NDArray 3 [[1, 1, 0], [0, - 1, 1]]"
proof -
  have h1: "3 \<le> length example_circuit" by (simp add: example_circuit_def)
  have h2: "\<forall>c\<in>set (take 3 example_circuit).
           1 \<le> pin1 c \<and> pin1 c \<le> int 3 \<and> 1 \<le> pin2 c \<and> pin2 c \<le> int 3"
    by (simp add: example_circuit_def)
  have h3: "(1::int) \<le> 2" "(2::int) \<le> int 3" by simp_all
  have v: "incidence_spec example_circuit 3 3 2 = NDArray 3 [[1, 1, 0], [0, - 1, 1]]"
    by (simp add: incidence_spec_def incidence_entry_def example_circuit_def Let_def
        upt_rec numeral_nat)
  show ?thesis
    using get_incidence_matrix_meets_spec[OF h1 h2 h3] v by simp
qed

lemma column_sum_rows:
  assumes "c < e"
  shows "column_sum (NDArray e (map (\<lambda>r. map (f r) [0..<e]) idxs)) c = sum_list (map (\<lambda>r. f r c) idxs)"
  using assms by (simp add: column_sum_def comp_def)

lemma sum_list_kept_rows:
  assumes "k < n"
  shows "sum_list (map f ([0..<k] @ [Suc k..<n])) = (\<Sum>r\<in>{0..<n} - {k}. (f r :: real))"
proof -
  have d: "distinct ([0..<k] @ [Suc k..<n])" by auto
  have s: "set ([0..<k] @ [Suc k..<n]) = {0..<n} - {k}" using assms by auto
  show ?thesis using sum_list_distinct_conv_sum_set[OF d, of f] by (simp only: s)
qed

lemma nat_pred_eq_iff:
  assumes "1 \<le> (p::int)" "1 \<le> q"
  shows "nat (p - 1) = nat (q - 1) \<longleftrightarrow> p = q"
  using assms by arith

lemma incidence_entry_nat:
  assumes "1 \<le> pin1 (cs ! c)" "1 \<le> pin2 (cs ! c)"
  shows "incidence_entry cs r c =
     (if nat (pin1 (cs ! c) - 1) = r then 1 else 0) + (if nat (pin2 (cs ! c) - 1) = r then - 1 else 0)"
proof -
  have "pin1 (cs ! c) - 1 = int r \<longleftrightarrow> nat (pin1 (cs ! c) - 1) = r" using assms(1) by arith
  moreover have "pin2 (cs ! c) - 1 = int r \<longleftrightarrow> nat (pin2 (cs ! c) - 1) = r" using assms(2) by arith
  ultimately show ?thesis by (simp only: incidence_entry_def)
qed

lemma incidence_entry_sum:
  assumes "1 \<le> pin1 (cs ! c)" "pin1 (cs ! c) \<le> int n" "1 \<le> pin2 (cs ! c)" "pin2 (cs ! c) \<le> int n"
    and "1 \<le> n_ref" "n_ref \<le> int n"
  shows "(\<Sum>r\<in>{0..<n} - {nat (n_ref - 1)}. incidence_entry cs r c)
     = (if pin2 (cs ! c) = n_ref then 1 else 0) - (if pin1 (cs ! c) = n_ref then 1 else 0)"
proof -
  let ?S = "{0..<n} - {nat (n_ref - 1)}"
  let ?a = "nat (pin1 (cs ! c) - 1)" and ?b = "nat (pin2 (cs ! c) - 1)"
  have fin: "finite ?S" by simp
  have la: "?a < n" using assms(1,2) by arith
  have lb: "?b < n" using assms(3,4) by arith
  have a: "?a \<in> ?S \<longleftrightarrow> pin1 (cs ! c) \<noteq> n_ref"
    using la nat_pred_eq_iff[OF assms(1) assms(5)] by simp
  have b: "?b \<in> ?S \<longleftrightarrow> pin2 (cs ! c) \<noteq> n_ref"
    using lb nat_pred_eq_iff[OF assms(3) assms(5)] by simp
  have "(\<Sum>r\<in>?S. incidence_entry cs r c)
      = (\<Sum>r\<in>?S. (if ?a = r then (1::real) else 0) + (if ?b = r then (- 1::real) else 0))"
    by (simp only: incidence_entry_nat[OF assms(1) assms(3)])
  also have "\<dots> = (\<Sum>r\<in>?S. if ?a = r then (1::real) else 0) + (\<Sum>r\<in>?S. if ?b = r then (- 1::real) else 0)"
    by (rule sum.distrib)
  also have "\<dots> = (if ?a \<in> ?S then 1 else 0) + (if ?b \<in> ?S then - 1 else 0)"
    using fin by (simp only: sum.delta')
  also have "\<dots> = (if pin2 (cs ! c) = n_ref then 1 else 0) - (if pin1 (cs ! c) = n_ref then 1 else 0)"
    by (simp only: a b) simp
  finally show ?thesis .
qed

text \<open>
  One resistor between nodes 1 and 2 with reference node 1: the row of node 1 is deleted and
  the only column is left with the entry \<open>-1\<close>, so it does not sum to zero.
\<close>

theorem incidence_column_sum_nonzero:
  "get_incidence_matrix single_resistor 2 1 1 = Inr (NDArray 1 [[- 1]])
   \<and> column_sum (NDArray 1 [[- 1]]) 0 = - 1"
  by (simp add: get_incidence_matrix_eq single_resistor_def in_range_def norm_index_def
      column_sum_def upt_rec numeral_nat)

text \<open>
  C9, as amended. For valid terminal ids and a valid reference node the matrix has
  \<open>num_nodes - 1\<close> rows, and column \<open>c\<close> sums to \<open>[pin2 = n_ref] - [pin1 = n_ref]\<close>: zero for
  a component that does not touch the reference node and for a self-loop, \<open>+1\<close> or \<open>-1\<close> for
  a component with one terminal on the reference node, whose row was deleted.
\<close>

theorem incidence_rows_and_column_sums:
  assumes "num_edges \<le> length components"
    and "\<forall>c\<in>set (take num_edges components).
           1 \<le> pin1 c \<and> pin1 c \<le> int num_nodes \<and> 1 \<le> pin2 c \<and> pin2 c \<le> int num_nodes"
    and "1 \<le> n_ref" "n_ref \<le> int num_nodes"
  shows "\<exists>Amat. get_incidence_matrix components num_nodes num_edges n_ref = Inr Amat
     \<and> nrows Amat = num_nodes - 1
     \<and> (\<forall>c<num_edges. column_sum Amat c =
          (if pin2 (components ! c) = n_ref then 1 else 0)
          - (if pin1 (components ! c) = n_ref then 1 else 0))"
proof -
  let ?A = "incidence_spec components num_nodes num_edges n_ref"
  have k: "nat (n_ref - 1) < num_nodes" using assms(3,4) by (rule valid_pin_index)
  have r: "get_incidence_matrix components num_nodes num_edges n_ref = Inr ?A"
    using assms by (rule get_incidence_matrix_valid)
  have n: "nrows ?A = num_nodes - 1"
    using incidence_spec_shape[OF assms(3,4), of components num_edges]
    by (simp add: has_shape_def nrows_def)
  have s: "column_sum ?A c = (if pin2 (components ! c) = n_ref then 1 else 0)
          - (if pin1 (components ! c) = n_ref then 1 else 0)" if "c < num_edges" for c
  proof -
    have "components ! c \<in> set (take num_edges components)"
      using that assms(1) by (metis in_set_conv_nth length_take min.absorb2 nth_take)
    with assms(2) have p: "1 \<le> pin1 (components ! c)" "pin1 (components ! c) \<le> int num_nodes"
      "1 \<le> pin2 (components ! c)" "pin2 (components ! c) \<le> int num_nodes"
      by auto
    show ?thesis
      unfolding incidence_spec_rows[OF assms(3,4)] column_sum_rows[OF that]
        sum_list_kept_rows[OF k]
      using p assms(3,4) by (rule incidence_entry_sum)
  qed
  show ?thesis using r n s by blast
qed

text \<open>
  The theorem at the three-node loop with reference node 2: the column sums are 1, 0 and 1.
\<close>

theorem incidence_rows_and_column_sums_witness:
  "\<exists>Amat. get_incidence_matrix example_circuit 3 3 2 = Inr Amat
     \<and> nrows Amat = 3 - 1
     \<and> column_sum Amat 0 = 1 \<and> column_sum Amat 1 = 0 \<and> column_sum Amat 2 = 1"
proof -
  have h1: "3 \<le> length example_circuit" by (simp add: example_circuit_def)
  have h2: "\<forall>c\<in>set (take 3 example_circuit).
           1 \<le> pin1 c \<and> pin1 c \<le> int 3 \<and> 1 \<le> pin2 c \<and> pin2 c \<le> int 3"
    by (simp add: example_circuit_def)
  have h3: "(1::int) \<le> 2" "(2::int) \<le> int 3" by simp_all
  from incidence_rows_and_column_sums[OF h1 h2 h3]
  obtain Amat where A: "get_incidence_matrix example_circuit 3 3 2 = Inr Amat"
    "nrows Amat = 3 - 1"
    "\<forall>c<3. column_sum Amat c =
          (if pin2 (example_circuit ! c) = 2 then 1 else 0)
          - (if pin1 (example_circuit ! c) = 2 then 1 else 0)"
    by blast
  have "column_sum Amat 0 = 1" "column_sum Amat 1 = 0" "column_sum Amat 2 = 1"
    using A(3)[rule_format, of 0] A(3)[rule_format, of 1] A(3)[rule_format, of 2]
    by (simp_all add: example_circuit_def)
  with A(1,2) show ?thesis by blast
qed

text \<open>
  A component with terminal ids 0 and 1, two nodes, reference node 1: no exception is raised.
  The row index \<open>0 - 1 = -1\<close> counts from the end, so the \<open>+1\<close> of terminal 0 lands in the row
  of node 2, which the result keeps.
\<close>

theorem incidence_pin_zero_wraps:
  "get_incidence_matrix pin_zero_circuit 2 1 1 = Inr (NDArray 1 [[1]])
   \<and> get_incidence_matrix_str pin_zero_circuit 2 1 1 = Inr (NDArray 1 [[''1'']])"
  by (simp add: get_incidence_matrix_eq get_incidence_matrix_str_eq pin_zero_circuit_def
      in_range_def norm_index_def upt_rec numeral_nat)

text \<open>
  C8, as amended. When one of the components read has a terminal id above \<open>num_nodes\<close> or
  not above \<open>-num_nodes\<close>, both \<open>get_incidence_matrix\<close> and \<open>get_incidence_matrix_str\<close>
  raise \<open>IndexError\<close> and return no matrix.
\<close>

theorem incidence_out_of_range_raises:
  assumes "\<exists>c\<in>set (take num_edges components).
      int num_nodes < pin1 c \<or> pin1 c \<le> - int num_nodes
      \<or> int num_nodes < pin2 c \<or> pin2 c \<le> - int num_nodes"
  shows "get_incidence_matrix components num_nodes num_edges n_ref = Inl IndexError
     \<and> get_incidence_matrix_str components num_nodes num_edges n_ref = Inl IndexError"
proof -
  from assms obtain c where c: "c \<in> set (take num_edges components)"
    and bad: "int num_nodes < pin1 c \<or> pin1 c \<le> - int num_nodes
      \<or> int num_nodes < pin2 c \<or> pin2 c \<le> - int num_nodes"
    by blast
  from bad have "\<not> in_range num_nodes (pin1 c - 1) \<or> \<not> in_range num_nodes (pin2 c - 1)"
    by (auto simp: in_range_def)
  with c have "\<not> ((\<forall>c\<in>set (take num_edges components). in_range num_nodes (pin1 c - 1))
      \<and> (\<forall>c\<in>set (take num_edges components). in_range num_nodes (pin2 c - 1)))"
    by blast
  then show ?thesis
    by (auto simp: get_incidence_matrix_eq get_incidence_matrix_str_eq)
qed

text \<open>
  The theorem at one resistor between nodes 1 and 5 in a matrix sized for two nodes.
\<close>

theorem incidence_out_of_range_raises_witness:
  "get_incidence_matrix pin_high_circuit 2 1 1 = Inl IndexError
     \<and> get_incidence_matrix_str pin_high_circuit 2 1 1 = Inl IndexError"
proof -
  have h: "\<exists>c\<in>set (take 1 pin_high_circuit).
      int 2 < pin1 c \<or> pin1 c \<le> - int 2 \<or> int 2 < pin2 c \<or> pin2 c \<le> - int 2"
    by (simp add: pin_high_circuit_def)
  show ?thesis using incidence_out_of_range_raises[OF h] .
qed

section \<open>Properties of the branch-law builders\<close>

lemma fill_diag_tabulate:
  assumes "\<forall>i\<in>set ind. i < n"
  shows "fill_diag v ind (tabulate n n f) =
     Inr (tabulate n n (\<lambda>a b. if a = b \<and> a \<in> set ind then v else f a b))"
  using assms
proof (induction ind arbitrary: f)
  case Nil
  then show ?case by (simp add: fill_diag_def)
next
  case (Cons x xs)
  have x: "x < n" and xs: "\<forall>i\<in>set xs. i < n" using Cons.prems by simp_all
  have "fill_diag v (x # xs) (tabulate n n f)
      = fill_diag v xs (tabulate n n (\<lambda>a b. if a = x \<and> b = x then v else f a b))"
    using x by (simp add: fill_diag_def set_cell_tabulate)
  also have "\<dots> = Inr (tabulate n n (\<lambda>a b. if a = b \<and> a \<in> set xs then v
                         else if a = x \<and> b = x then v else f a b))"
    by (rule Cons.IH[OF xs])
  also have "tabulate n n (\<lambda>a b. if a = b \<and> a \<in> set xs then v
                         else if a = x \<and> b = x then v else f a b)
      = tabulate n n (\<lambda>a b. if a = b \<and> a \<in> set (x # xs) then v else f a b)"
    by (rule tabulate_cong) auto
  finally show ?case .
qed

lemma for_loop_diag_tabulate:
  assumes "\<forall>i\<in>set ind. i < n"
    and "\<And>i A. i \<in> set ind \<Longrightarrow> body i A = set_cell A (int i) (int i) (h i)"
  shows "for_loop ind body (tabulate n n f) =
     Inr (tabulate n n (\<lambda>a b. if a = b \<and> a \<in> set ind then h a else f a b))"
  using assms
proof (induction ind arbitrary: f)
  case Nil
  then show ?case by simp
next
  case (Cons x xs)
  have x: "x < n" and xs: "\<forall>i\<in>set xs. i < n" using Cons.prems(1) by simp_all
  have b: "\<And>i A. i \<in> set xs \<Longrightarrow> body i A = set_cell A (int i) (int i) (h i)"
    using Cons.prems(2) by simp
  have "for_loop (x # xs) body (tabulate n n f)
      = for_loop xs body (tabulate n n (\<lambda>a b. if a = x \<and> b = x then h x else f a b))"
    using x Cons.prems(2)[of x] by (simp add: set_cell_tabulate)
  also have "\<dots> = Inr (tabulate n n (\<lambda>a b. if a = b \<and> a \<in> set xs then h a
                         else if a = x \<and> b = x then h x else f a b))"
    by (rule Cons.IH[OF xs b])
  also have "tabulate n n (\<lambda>a b. if a = b \<and> a \<in> set xs then h a
                         else if a = x \<and> b = x then h x else f a b)
      = tabulate n n (\<lambda>a b. if a = b \<and> a \<in> set (x # xs) then h a else f a b)"
    by (rule tabulate_cong) auto
  finally show ?case .
qed

lemma store_float_tabulate:
  assumes "i < n" "j < c" "is_float x"
  shows "store_float (tabulate n c f) (int i) (int j) x
      = set_cell (tabulate n c f) (int i) (int j) (the_float x)"
  using assms by (cases x) (simp_all add: store_float_def set_cell_tabulate)

lemma fill_diag_value_tabulate:
  assumes "\<forall>i\<in>set ind. i < n \<and> i < length cs \<and> is_float (cvalue (cs ! i))"
  shows "fill_diag_value cs ind (np_full n n 0) =
     Inr (tabulate n n (\<lambda>a b. if a = b \<and> a \<in> set ind then the_float (cvalue (cs ! a)) else 0))"
  using assms
proof (induction ind rule: rev_induct)
  case Nil
  then show ?case by (simp add: fill_diag_value_def np_full_tabulate)
next
  case (snoc x xs)
  have x: "x < n" "x < length cs" "is_float (cvalue (cs ! x))" using snoc.prems by simp_all
  have IH: "fill_diag_value cs xs (np_full n n 0) =
     Inr (tabulate n n (\<lambda>a b. if a = b \<and> a \<in> set xs then the_float (cvalue (cs ! a)) else 0))"
    using snoc.prems by (intro snoc.IH) simp
  have "tabulate n n (\<lambda>a b. if a = x \<and> b = x then the_float (cvalue (cs ! x))
            else if a = b \<and> a \<in> set xs then the_float (cvalue (cs ! a)) else 0)
      = tabulate n n (\<lambda>a b. if a = b \<and> a \<in> set (xs @ [x]) then the_float (cvalue (cs ! a)) else 0)"
    by (rule tabulate_cong) auto
  then show ?case
    using IH x unfolding fill_diag_value_def
    by (simp add: for_loop_append py_list_get_def store_float_tabulate set_cell_tabulate)
qed


lemma store_float_neg_tabulate:
  assumes "i < n" "j < c" "is_float x"
  shows "(case py_neg x of Inl e \<Rightarrow> Inl e | Inr y \<Rightarrow> store_float (tabulate n c f) (int i) (int j) y)
      = set_cell (tabulate n c f) (int i) (int j) (- the_float x)"
  using assms by (cases x) (simp_all add: store_float_def set_cell_tabulate)

lemma fill_diag_neg_value_tabulate:
  assumes "\<forall>i\<in>set ind. i < n \<and> i < length cs \<and> is_float (cvalue (cs ! i))"
  shows "fill_diag_neg_value cs ind (np_full n n 0) =
     Inr (tabulate n n (\<lambda>a b. if a = b \<and> a \<in> set ind then - the_float (cvalue (cs ! a)) else 0))"
  using assms
proof (induction ind rule: rev_induct)
  case Nil
  then show ?case by (simp add: fill_diag_neg_value_def np_full_tabulate)
next
  case (snoc x xs)
  have x: "x < n" "x < length cs" "is_float (cvalue (cs ! x))" using snoc.prems by simp_all
  have IH: "fill_diag_neg_value cs xs (np_full n n 0) =
     Inr (tabulate n n (\<lambda>a b. if a = b \<and> a \<in> set xs then - the_float (cvalue (cs ! a)) else 0))"
    using snoc.prems by (intro snoc.IH) simp
  have "tabulate n n (\<lambda>a b. if a = x \<and> b = x then - the_float (cvalue (cs ! x))
            else if a = b \<and> a \<in> set xs then - the_float (cvalue (cs ! a)) else 0)
      = tabulate n n (\<lambda>a b. if a = b \<and> a \<in> set (xs @ [x]) then - the_float (cvalue (cs ! a)) else 0)"
    by (rule tabulate_cong) auto
  then show ?case
    using IH x unfolding fill_diag_neg_value_def
    by (simp add: for_loop_append py_list_get_def store_float_neg_tabulate set_cell_tabulate)
qed

lemma fill_diag_name_tabulate:
  assumes "\<forall>i\<in>set ind. i < n \<and> i < length cs"
  shows "fill_diag_name pre cs ind (np_full n n []) =
     Inr (tabulate n n (\<lambda>a b. if a = b \<and> a \<in> set ind then to_S500 (pre @ name (cs ! a)) else []))"
  using assms
proof (induction ind rule: rev_induct)
  case Nil
  then show ?case by (simp add: fill_diag_name_def np_full_tabulate)
next
  case (snoc x xs)
  have x: "x < n" "x < length cs" using snoc.prems by simp_all
  have IH: "fill_diag_name pre cs xs (np_full n n []) =
     Inr (tabulate n n (\<lambda>a b. if a = b \<and> a \<in> set xs then to_S500 (pre @ name (cs ! a)) else []))"
    using snoc.prems by (intro snoc.IH) simp
  have "tabulate n n (\<lambda>a b. if a = x \<and> b = x then to_S500 (pre @ name (cs ! x))
            else if a = b \<and> a \<in> set xs then to_S500 (pre @ name (cs ! a)) else [])
      = tabulate n n (\<lambda>a b. if a = b \<and> a \<in> set (xs @ [x]) then to_S500 (pre @ name (cs ! a)) else [])"
    by (rule tabulate_cong) auto
  then show ?case
    using IH x unfolding fill_diag_name_def
    by (simp add: for_loop_append py_list_get_def set_cell_tabulate)
qed

lemma fill_diag_full:
  assumes "\<forall>i\<in>set ind. i < n"
  shows "fill_diag v ind (np_full n n z) =
     Inr (tabulate n n (\<lambda>a b. if a = b \<and> a \<in> set ind then v else z))"
  unfolding np_full_tabulate using assms by (rule fill_diag_tabulate)

lemma get_resistance_matrix_eq:
  assumes "\<forall>i\<in>set indr. i < n \<and> i < length cs \<and> is_float (cvalue (cs ! i))"
    and "\<forall>i\<in>set indi. i < n" "\<forall>i\<in>set indcap. i < n"
  shows "get_resistance_matrix cs n indr indi indcap =
     Inr (tabulate n n (\<lambda>a b. (if a = b \<and> a \<in> set indr then the_float (cvalue (cs ! a)) else 0)
            + (if a = b \<and> a \<in> set indi then 1 else 0)
            + (if a = b \<and> a \<in> set indcap then 1 else 0)))"
  by (simp add: get_resistance_matrix_def fill_diag_value_tabulate[OF assms(1)]
      fill_diag_full[OF assms(2)] fill_diag_full[OF assms(3)] np_add_tabulate)

lemma get_conductance_matrix_eq:
  assumes "\<forall>i\<in>set indr. i < n" "\<forall>i\<in>set indv. i < n" "\<forall>i\<in>set indInd. i < n"
  shows "get_conductance_matrix n indr indv indInd =
     Inr (tabulate n n (\<lambda>a b. (if a = b \<and> a \<in> set indr then - 1 else 0)
            + (if a = b \<and> a \<in> set indv then 1 else 0)
            + (if a = b \<and> a \<in> set indInd then 1 else 0)))"
  by (simp add: get_conductance_matrix_def
      fill_diag_full[OF assms(1)] fill_diag_full[OF assms(2)] fill_diag_full[OF assms(3)]
      np_add_tabulate)

text \<open>
  C7. For index lists within \<open>0..<nedges\<close> that are pairwise disjoint where one builder
  combines them, and real values at the resistor, inductor and capacitor indices, each numeric
  builder returns an \<open>nedges\<close> by \<open>nedges\<close> array that is zero off the diagonal. The diagonal
  of \<open>get_resistance_matrix\<close> is the value at resistor indices, 1 at current-source and at
  capacitor indices and 0 elsewhere; that of \<open>get_conductance_matrix\<close> is \<open>-1\<close> at resistor
  indices, 1 at voltage-source and at inductor indices and 0 elsewhere; that of
  \<open>get_inductance_matrix\<close> and \<open>get_capacitance_matrix\<close> is the negated value at inductor
  and capacitor indices and 0 elsewhere.
\<close>

theorem branch_matrices_diagonal:
  assumes "nedges \<le> length components"
    and "\<forall>i\<in>set indr \<union> set indv \<union> set indi \<union> set indInd \<union> set indcap. i < nedges"
    and "set indr \<inter> set indi = {}" "set indr \<inter> set indcap = {}" "set indi \<inter> set indcap = {}"
    and "set indr \<inter> set indv = {}" "set indr \<inter> set indInd = {}" "set indv \<inter> set indInd = {}"
    and "\<forall>i\<in>set indr \<union> set indInd \<union> set indcap. is_float (cvalue (components ! i))"
  shows "(\<exists>Rmat. get_resistance_matrix components nedges indr indi indcap = Inr Rmat
            \<and> diagonal_with Rmat nedges
                 (\<lambda>i. if i \<in> set indr then the_float (cvalue (components ! i))
                      else if i \<in> set indi then 1 else if i \<in> set indcap then 1 else 0))
     \<and> (\<exists>Gmat. get_conductance_matrix nedges indr indv indInd = Inr Gmat
            \<and> diagonal_with Gmat nedges
                 (\<lambda>i. if i \<in> set indr then - 1
                      else if i \<in> set indv then 1 else if i \<in> set indInd then 1 else 0))
     \<and> (\<exists>Lmat. get_inductance_matrix components nedges indInd = Inr Lmat
            \<and> diagonal_with Lmat nedges
                 (\<lambda>i. if i \<in> set indInd then - the_float (cvalue (components ! i)) else 0))
     \<and> (\<exists>Cmat. get_capacitance_matrix components nedges indcap = Inr Cmat
            \<and> diagonal_with Cmat nedges
                 (\<lambda>i. if i \<in> set indcap then - the_float (cvalue (components ! i)) else 0))"
proof -
  have b: "\<forall>i\<in>set indr. i < nedges" "\<forall>i\<in>set indv. i < nedges" "\<forall>i\<in>set indi. i < nedges"
    "\<forall>i\<in>set indInd. i < nedges" "\<forall>i\<in>set indcap. i < nedges"
    using assms(2) by auto
  have f: "\<forall>i\<in>set indr. is_float (cvalue (components ! i))"
    "\<forall>i\<in>set indInd. is_float (cvalue (components ! i))"
    "\<forall>i\<in>set indcap. is_float (cvalue (components ! i))"
    using assms(9) by auto
  have r: "\<forall>i\<in>set indr. i < nedges \<and> i < length components \<and> is_float (cvalue (components ! i))"
    using b(1) f(1) assms(1) by fastforce
  have l: "\<forall>i\<in>set indInd. i < nedges \<and> i < length components \<and> is_float (cvalue (components ! i))"
    using b(4) f(2) assms(1) by fastforce
  have c: "\<forall>i\<in>set indcap. i < nedges \<and> i < length components \<and> is_float (cvalue (components ! i))"
    using b(5) f(3) assms(1) by fastforce
  have R: "diagonal_with (tabulate nedges nedges
        (\<lambda>a b. (if a = b \<and> a \<in> set indr then the_float (cvalue (components ! a)) else 0)
            + (if a = b \<and> a \<in> set indi then 1 else 0)
            + (if a = b \<and> a \<in> set indcap then 1 else 0))) nedges
        (\<lambda>i. if i \<in> set indr then the_float (cvalue (components ! i))
                      else if i \<in> set indi then 1 else if i \<in> set indcap then 1 else 0)"
    unfolding diagonal_with_def using assms(3-5) by (intro tabulate_cong) auto
  have G: "diagonal_with (tabulate nedges nedges
        (\<lambda>a b. (if a = b \<and> a \<in> set indr then - 1 else 0)
            + (if a = b \<and> a \<in> set indv then 1 else 0)
            + (if a = b \<and> a \<in> set indInd then 1 else 0))) nedges
        (\<lambda>i. if i \<in> set indr then - 1
                      else if i \<in> set indv then 1 else if i \<in> set indInd then 1 else 0)"
    unfolding diagonal_with_def using assms(6-8) by (intro tabulate_cong) auto
  have L: "diagonal_with (tabulate nedges nedges
        (\<lambda>a b. if a = b \<and> a \<in> set indInd then - the_float (cvalue (components ! a)) else 0)) nedges
        (\<lambda>i. if i \<in> set indInd then - the_float (cvalue (components ! i)) else 0)"
    unfolding diagonal_with_def by (intro tabulate_cong) auto
  have C: "diagonal_with (tabulate nedges nedges
        (\<lambda>a b. if a = b \<and> a \<in> set indcap then - the_float (cvalue (components ! a)) else 0)) nedges
        (\<lambda>i. if i \<in> set indcap then - the_float (cvalue (components ! i)) else 0)"
    unfolding diagonal_with_def by (intro tabulate_cong) auto
  show ?thesis
    unfolding get_resistance_matrix_eq[OF r b(3) b(5)] get_conductance_matrix_eq[OF b(1) b(2) b(4)]
      get_inductance_matrix_def get_capacitance_matrix_def
      fill_diag_neg_value_tabulate[OF l] fill_diag_neg_value_tabulate[OF c]
    using R G L C by blast
qed

text \<open>
  The theorem at a current source, a resistor, an inductor and a capacitor, with the index
  lists that \<open>get_indices\<close> returns for them.
\<close>

theorem branch_matrices_diagonal_witness:
  "get_resistance_matrix example_rlc 4 [1] [0] [3]
     = Inr (NDArray 4 [[1, 0, 0, 0], [0, 10, 0, 0], [0, 0, 0, 0], [0, 0, 0, 1]])
   \<and> get_conductance_matrix 4 [1] [] [2]
     = Inr (NDArray 4 [[0, 0, 0, 0], [0, - 1, 0, 0], [0, 0, 1, 0], [0, 0, 0, 0]])
   \<and> get_inductance_matrix example_rlc 4 [2]
     = Inr (NDArray 4 [[0, 0, 0, 0], [0, 0, 0, 0], [0, 0, - 2, 0], [0, 0, 0, 0]])
   \<and> get_capacitance_matrix example_rlc 4 [3]
     = Inr (NDArray 4 [[0, 0, 0, 0], [0, 0, 0, 0], [0, 0, 0, 0], [0, 0, 0, - (1 / 2)]])"
proof -
  have h1: "4 \<le> length example_rlc" by (simp add: example_rlc_def)
  have h2: "\<forall>i\<in>set [1] \<union> set [] \<union> set [0] \<union> set [2] \<union> set [3]. i < (4::nat)" by simp
  have h3: "set [1::nat] \<inter> set [0] = {}" "set [1::nat] \<inter> set [3] = {}" "set [0::nat] \<inter> set [3] = {}"
    "set [1::nat] \<inter> set [] = {}" "set [1::nat] \<inter> set [2] = {}" "set ([]::nat list) \<inter> set [2] = {}"
    by simp_all
  have h4: "\<forall>i\<in>set [1] \<union> set [2] \<union> set [3]. is_float (cvalue (example_rlc ! i))"
    by (simp add: example_rlc_def)
  show ?thesis
    using branch_matrices_diagonal[OF h1 h2 h3 h4]
    by (auto simp: diagonal_with_def tabulate_def example_rlc_def upt_rec numeral_nat)
qed

section \<open>Properties of the source vector\<close>

lemma set_row_tabulate:
  assumes "i < n"
  shows "set_row (tabulate n c f) (int i) v =
     Inr (tabulate n c (\<lambda>a b. if a = i then v else f a b))"
proof -
  have "(map (\<lambda>i. map (f i) [0..<c]) [0..<n])[i := replicate c v]
      = map (\<lambda>a. map (\<lambda>b. if a = i then v else f a b) [0..<c]) [0..<n]"
    using assms by (auto intro!: nth_equalityI simp: nth_list_update)
  then show ?thesis
    using assms by (simp add: set_row_def np_index_def tabulate_def nrows_def)
qed

lemma rhs_i_loop_real:
  assumes "\<forall>i\<in>set ind. i < n \<and> i < length cs \<and> is_float (cvalue (cs ! i))"
  shows "for_loop ind (rhs_i_body cs n) (st\<lparr>rhs_vec := tabulate n c f\<rparr>) =
     Inr (st\<lparr>rhs_vec := tabulate n c
            (\<lambda>a b. if a \<in> set ind then of_real (the_float (cvalue (cs ! a))) else f a b)\<rparr>)"
  using assms
proof (induction ind arbitrary: f)
  case Nil
  then show ?case by simp
next
  case (Cons x xs)
  have x: "x < n" "x < length cs" "is_float (cvalue (cs ! x))" using Cons.prems by simp_all
  have xs: "\<forall>i\<in>set xs. i < n \<and> i < length cs \<and> is_float (cvalue (cs ! i))"
    using Cons.prems by simp
  obtain v where v: "cvalue (cs ! x) = PyFloat v" using x(3) by (cases "cvalue (cs ! x)") simp_all
  have step: "rhs_i_body cs n x (st\<lparr>rhs_vec := tabulate n c f\<rparr>)
      = Inr (st\<lparr>rhs_vec := tabulate n c (\<lambda>a b. if a = x then of_real v else f a b)\<rparr>)"
    using x(1,2) by (simp add: rhs_i_body_def py_list_get_def v set_row_tabulate)
  have "tabulate n c (\<lambda>a b. if a \<in> set xs then of_real (the_float (cvalue (cs ! a)))
                          else if a = x then of_real v else f a b)
      = tabulate n c (\<lambda>a b. if a \<in> set (x # xs) then complex_of_real (the_float (cvalue (cs ! a)))
                          else f a b)"
    by (rule tabulate_cong) (auto simp: v)
  then show ?case
    using Cons.IH[OF xs, of "\<lambda>a b. if a = x then of_real v else f a b"]
    by (simp add: step)
qed

lemma rhs_v_loop_real:
  assumes "\<forall>i\<in>set ind. i < n \<and> i < length cs \<and> is_float (cvalue (cs ! i))"
  shows "for_loop ind (rhs_v_body cs n) (st\<lparr>rhs_vec := tabulate n c f\<rparr>) =
     Inr (st\<lparr>rhs_vec := tabulate n c
            (\<lambda>a b. if a \<in> set ind then - of_real (the_float (cvalue (cs ! a))) else f a b)\<rparr>)"
  using assms
proof (induction ind arbitrary: f)
  case Nil
  then show ?case by simp
next
  case (Cons x xs)
  have x: "x < n" "x < length cs" "is_float (cvalue (cs ! x))" using Cons.prems by simp_all
  have xs: "\<forall>i\<in>set xs. i < n \<and> i < length cs \<and> is_float (cvalue (cs ! i))"
    using Cons.prems by simp
  obtain v where v: "cvalue (cs ! x) = PyFloat v" using x(3) by (cases "cvalue (cs ! x)") simp_all
  have step: "rhs_v_body cs n x (st\<lparr>rhs_vec := tabulate n c f\<rparr>)
      = Inr (st\<lparr>rhs_vec := tabulate n c (\<lambda>a b. if a = x then - of_real v else f a b)\<rparr>)"
    using x(1,2) by (simp add: rhs_v_body_def py_list_get_def v set_row_tabulate)
  have "tabulate n c (\<lambda>a b. if a \<in> set xs then - of_real (the_float (cvalue (cs ! a)))
                          else if a = x then - of_real v else f a b)
      = tabulate n c (\<lambda>a b. if a \<in> set (x # xs) then - complex_of_real (the_float (cvalue (cs ! a)))
                          else f a b)"
    by (rule tabulate_cong) (auto simp: v)
  then show ?case
    using Cons.IH[OF xs, of "\<lambda>a b. if a = x then - of_real v else f a b"]
    by (simp add: step)
qed

lemma rhs_init_tabulate: "rhs_init n = (rhs_init n)\<lparr>rhs_vec := tabulate n 1 (\<lambda>_ _. 0)\<rparr>"
  by (simp add: rhs_init_def np_full_tabulate)

lemma get_rhs_real:
  assumes "\<forall>i\<in>set indi. i < n \<and> i < length cs \<and> is_float (cvalue (cs ! i))"
    and "\<forall>i\<in>set indv. i < n \<and> i < length cs \<and> is_float (cvalue (cs ! i))"
  shows "get_rhs cs n indi indv =
     Inr (tabulate n 1 (\<lambda>a b. of_real
            ((if a \<in> set indv then - the_float (cvalue (cs ! a)) else 0)
             + (if a \<in> set indi then the_float (cvalue (cs ! a)) else 0))))"
proof -
  have i: "for_loop indi (rhs_i_body cs n) (rhs_init n) =
     Inr ((rhs_init n)\<lparr>rhs_vec := tabulate n 1
            (\<lambda>a b. if a \<in> set indi then of_real (the_float (cvalue (cs ! a))) else 0)\<rparr>)"
    using rhs_i_loop_real[OF assms(1), where st = "rhs_init n" and f = "\<lambda>_ _. 0" and c = 1]
    by (simp only: rhs_init_tabulate[symmetric])
  have v: "for_loop indv (rhs_v_body cs n) (rhs_init n) =
     Inr ((rhs_init n)\<lparr>rhs_vec := tabulate n 1
            (\<lambda>a b. if a \<in> set indv then - of_real (the_float (cvalue (cs ! a))) else 0)\<rparr>)"
    using rhs_v_loop_real[OF assms(2), where st = "rhs_init n" and f = "\<lambda>_ _. 0" and c = 1]
    by (simp only: rhs_init_tabulate[symmetric])
  have "np_add (+)
      (tabulate n 1 (\<lambda>a b. if a \<in> set indv then - of_real (the_float (cvalue (cs ! a))) else 0))
      (tabulate n 1 (\<lambda>a b. if a \<in> set indi then of_real (the_float (cvalue (cs ! a))) else 0))
     = tabulate n 1 (\<lambda>a b. complex_of_real
            ((if a \<in> set indv then - the_float (cvalue (cs ! a)) else 0)
             + (if a \<in> set indi then the_float (cvalue (cs ! a)) else 0)))"
    unfolding np_add_tabulate by (rule tabulate_cong) auto
  then show ?thesis
    unfolding get_rhs_def i v by simp
qed

lemma fill_rows_name_tabulate:
  assumes "\<forall>i\<in>set ind. i < n \<and> i < length cs"
  shows "fill_rows_name pre cs ind (tabulate n c f) =
     Inr (tabulate n c (\<lambda>a b. if a \<in> set ind then to_S500 (pre @ name (cs ! a)) else f a b))"
  using assms
proof (induction ind arbitrary: f)
  case Nil
  then show ?case by (simp add: fill_rows_name_def)
next
  case (Cons x xs)
  have x: "x < n" "x < length cs" using Cons.prems by simp_all
  have xs: "\<forall>i\<in>set xs. i < n \<and> i < length cs" using Cons.prems by simp
  have "tabulate n c (\<lambda>a b. if a \<in> set xs then to_S500 (pre @ name (cs ! a))
                          else if a = x then to_S500 (pre @ name (cs ! x)) else f a b)
      = tabulate n c (\<lambda>a b. if a \<in> set (x # xs) then to_S500 (pre @ name (cs ! a)) else f a b)"
    by (rule tabulate_cong) auto
  then show ?case
    using Cons.IH[OF xs, of "\<lambda>a b. if a = x then to_S500 (pre @ name (cs ! x)) else f a b"] x
    by (simp add: fill_rows_name_def py_list_get_def set_row_tabulate)
qed

lemma get_rhs_str_eq:
  assumes "\<forall>i\<in>set indi. i < n \<and> i < length cs" "\<forall>i\<in>set indv. i < n \<and> i < length cs"
  shows "get_rhs_str cs n indi indv =
     Inr (tabulate n 1 (\<lambda>a b. (if a \<in> set indv then to_S500 (''-'' @ name (cs ! a)) else [])
                              @ (if a \<in> set indi then to_S500 (name (cs ! a)) else [])))"
  unfolding get_rhs_str_def np_full_tabulate
    fill_rows_name_tabulate[OF assms(1)] fill_rows_name_tabulate[OF assms(2)]
  by (simp add: np_add_tabulate cong: if_cong)

text \<open>
  C6. The claim: \<open>get_rhs\<close> puts \<open>+value\<close> at every current-source index and \<open>-value\<close> at
  every voltage-source index, also for a mixture of real and complex sources of one kind.
  For real sources alone this is \<open>get_rhs_real\<close> above. For a real current source followed
  by a complex one the code fails it: the complex branch rebinds \<open>rhs_i\<close> to
  \<open>rhs_i_re + 1j * rhs_i_im\<close>, and the accumulators never received the real value, so the
  entry of the real source is 0 instead of 5.
\<close>

theorem get_rhs_drops_real_source:
  "get_rhs mixed_sources 2 [0, 1] [] = Inr (NDArray 1 [[0], [Complex 1 2]])
   \<and> get_rhs mixed_sources 2 [0, 1] [] \<noteq> Inr (NDArray 1 [[5], [Complex 1 2]])"
  by (simp add: get_rhs_def rhs_i_body_def rhs_init_def mixed_sources_def py_list_get_def
      set_row_def np_index_def nrows_def np_full_def np_merge_def np_add_def Let_def
      numeral_nat complex_eq_iff)


section \<open>Properties of the tableau assembler\<close>

lemma has_shape_tabulate:
  assumes "has_shape M r c"
  shows "M = tabulate r c (cell M)"
proof -
  have len: "length (rows M) = r" and nc: "ncols M = c"
    and rowlen: "\<And>i. i < r \<Longrightarrow> length (rows M ! i) = c"
    using assms by (auto simp: has_shape_def list_all_iff)
  have "rows M = map (\<lambda>i. map (cell M i) [0..<c]) [0..<r]"
    using len rowlen by (auto intro!: nth_equalityI simp: cell_def)
  then show ?thesis
    using nc by (cases M) (simp add: tabulate_def)
qed

lemma has_shape_tabulate_iff [simp]: "has_shape (tabulate r c f) r c"
  by (simp add: has_shape_def tabulate_def list_all_iff)

lemma cell_tabulate [simp]: "i < r \<Longrightarrow> j < c \<Longrightarrow> cell (tabulate r c f) i j = f i j"
  by (simp add: cell_def tabulate_def)

lemma np_hstack2_tabulate:
  "np_hstack2 (tabulate r c1 f) (tabulate r c2 g) =
     Inr (tabulate r (c1 + c2) (\<lambda>i j. if j < c1 then f i j else g i (j - c1)))"
  by (auto simp: np_hstack2_def tabulate_def nrows_def nth_append intro!: nth_equalityI)

lemma np_vstack2_tabulate:
  "np_vstack2 (tabulate r1 c f) (tabulate r2 c g) =
     Inr (tabulate (r1 + r2) c (\<lambda>i j. if i < r1 then f i j else g (i - r1) j))"
  by (auto simp: np_vstack2_def tabulate_def nth_append intro!: nth_equalityI)

lemma np_transpose_tabulate:
  "np_transpose (tabulate r c f) = tabulate c r (\<lambda>i j. f j i)"
  by (simp add: np_transpose_def tabulate_def nrows_def)

lemma np_map_tabulate: "np_map h (tabulate r c f) = tabulate r c (\<lambda>i j. h (f i j))"
  by (simp add: np_map_def tabulate_def comp_def)


lemma tabulate_cong_dims:
  assumes "r = r'" "c = c'" "\<And>a b. a < r \<Longrightarrow> b < c \<Longrightarrow> f a b = g a b"
  shows "tabulate r c f = tabulate r' c' g"
  using assms by (simp add: tabulate_def)

lemma source_blocks:
  fixes f :: "nat \<Rightarrow> nat \<Rightarrow> 'b::zero"
  shows "np_vstack [np_full n1 1 0, np_full e 1 0, tabulate e 1 f]
     = Inr (source_spec (tabulate e 1 f) n1 e)"
  apply (simp add: np_full_tabulate np_vstack2_tabulate source_spec_def)
  apply (rule tabulate_cong_dims)
    apply (auto simp: not_less)
  done


lemma get_tableau_matrix_tabulate:
  fixes a :: "nat \<Rightarrow> nat \<Rightarrow> 'a::{zero,one,uminus}" and f :: "nat \<Rightarrow> nat \<Rightarrow> 'b::zero"
  assumes "0 < n"
  shows "get_tableau_matrix (tabulate (n - 1) e a) (tabulate e e r) (tabulate e e g)
           (tabulate e e l) (tabulate e e c) (tabulate e 1 f) n e
     = Inr (stiffness_spec (tabulate (n - 1) e a) (tabulate e e r) (tabulate e e g) (n - 1) e,
            damping_spec (tabulate e e l) (tabulate e e c) (n - 1) e,
            source_spec (tabulate e 1 f) (n - 1) e)"
proof -
  have k: "np_hstack [tabulate (n - 1) e a, np_full (n - 1) e 0, np_full (n - 1) (n - 1) 0]
      = Inr (tabulate (n - 1) (e + (e + (n - 1))) (\<lambda>i j. if j < e then a i j else 0))"
    by (auto simp: np_full_tabulate np_hstack2_tabulate intro!: tabulate_cong)
  have v: "np_hstack [np_full e e 0, np_neg_eye e, np_transpose (tabulate (n - 1) e a)]
      = Inr (tabulate e (e + (e + (n - 1)))
              (\<lambda>i j. if j < e then 0 else if j < e + e then (if j - e = i then - 1 else 0)
                      else a (j - (e + e)) i))"
    by (auto simp: np_full_tabulate np_neg_eye_def np_transpose_tabulate np_hstack2_tabulate
        intro!: tabulate_cong)
  have m: "np_hstack [tabulate e e r, tabulate e e g, np_full e (n - 1) 0]
      = Inr (tabulate e (e + (e + (n - 1)))
              (\<lambda>i j. if j < e then r i j else if j < e + e then g i (j - e) else 0))"
    by (auto simp: np_full_tabulate np_hstack2_tabulate intro!: tabulate_cong)
  have m2: "np_hstack [tabulate e e l, tabulate e e c, np_full e (n - 1) 0]
      = Inr (tabulate e (e + (e + (n - 1)))
              (\<lambda>i j. if j < e then l i j else if j < e + e then c i (j - e) else 0))"
    by (auto simp: np_full_tabulate np_hstack2_tabulate intro!: tabulate_cong)
  have d: "2 * e + (n - 1) = e + (e + (n - 1))" by simp
  have M1: "np_vstack [tabulate (n - 1) (e + (e + (n - 1))) (\<lambda>i j. if j < e then a i j else 0),
        tabulate e (e + (e + (n - 1)))
              (\<lambda>i j. if j < e then 0 else if j < e + e then (if j - e = i then - 1 else 0)
                      else a (j - (e + e)) i),
        tabulate e (e + (e + (n - 1)))
              (\<lambda>i j. if j < e then r i j else if j < e + e then g i (j - e) else 0)]
      = Inr (stiffness_spec (tabulate (n - 1) e a) (tabulate e e r) (tabulate e e g) (n - 1) e)"
    apply (simp add: np_vstack2_tabulate stiffness_spec_def)
    apply (rule tabulate_cong_dims)
      apply (auto simp: not_less)
    done
  have M2: "np_vstack [np_full (e + (n - 1)) (e + (e + (n - 1))) 0,
        tabulate e (e + (e + (n - 1)))
              (\<lambda>i j. if j < e then l i j else if j < e + e then c i (j - e) else 0)]
      = Inr (damping_spec (tabulate e e l) (tabulate e e c) (n - 1) e)"
    apply (simp add: np_full_tabulate np_vstack2_tabulate damping_spec_def)
    apply (rule tabulate_cong_dims)
      apply (auto simp: not_less add.commute)
    done
  show ?thesis
    using assms unfolding get_tableau_matrix_def Let_def d k v m m2
    by (simp only: sum.case M1 M2 source_blocks) simp
qed

text \<open>
  C2. For \<open>num_nodes > 0\<close>, \<open>Amat\<close> of shape \<open>(num_nodes - 1, num_edges)\<close>, \<open>Rmat\<close>, \<open>Gmat\<close>,
  \<open>Lmat\<close> and \<open>Cmat\<close> of shape \<open>(num_edges, num_edges)\<close> and \<open>fvec\<close> of shape
  \<open>(num_edges, 1)\<close>, \<open>get_tableau_matrix\<close> returns the stiffness matrix
  \<open>[[Amat, 0, 0], [0, -I, transpose Amat], [Rmat, Gmat, 0]]\<close>, the damping matrix that is
  zero but for its bottom row-block \<open>[Lmat, Cmat, 0]\<close>, and the source vector
  \<open>[0; 0; fvec]\<close>, with row-block heights \<open>num_nodes - 1\<close>, \<open>num_edges\<close>, \<open>num_edges\<close> and
  column-block widths \<open>num_edges\<close>, \<open>num_edges\<close>, \<open>num_nodes - 1\<close>.
\<close>

theorem get_tableau_matrix_blocks:
  fixes Amat :: "'a::{zero,one,uminus} ndarray" and fvec :: "'b::zero ndarray"
  assumes "0 < num_nodes"
    and "has_shape Amat (num_nodes - 1) num_edges"
    and "has_shape Rmat num_edges num_edges" and "has_shape Gmat num_edges num_edges"
    and "has_shape Lmat num_edges num_edges" and "has_shape Cmat num_edges num_edges"
    and "has_shape fvec num_edges 1"
  shows "get_tableau_matrix Amat Rmat Gmat Lmat Cmat fvec num_nodes num_edges
     = Inr (stiffness_spec Amat Rmat Gmat (num_nodes - 1) num_edges,
            damping_spec Lmat Cmat (num_nodes - 1) num_edges,
            source_spec fvec (num_nodes - 1) num_edges)"
proof -
  note t = has_shape_tabulate[OF assms(2)] has_shape_tabulate[OF assms(3)]
    has_shape_tabulate[OF assms(4)] has_shape_tabulate[OF assms(5)]
    has_shape_tabulate[OF assms(6)] has_shape_tabulate[OF assms(7)]
  show ?thesis
    using get_tableau_matrix_tabulate[OF assms(1), of num_edges "cell Amat" "cell Rmat"
        "cell Gmat" "cell Lmat" "cell Cmat" "cell fvec"]
    by (simp only: t[symmetric])
qed


text \<open>
  The theorem at a 1 V source across a 1 Ohm resistor (two nodes, two edges, reference
  node 2).
\<close>

theorem get_tableau_matrix_blocks_witness:
  "get_tableau_matrix
     (NDArray 2 [[1, 1]]) (NDArray 2 [[0, 0], [0, 1]]) (NDArray 2 [[1, 0], [0, - 1]])
     (NDArray 2 [[0, 0], [0, 0]]) (NDArray 2 [[0, 0], [0, 0]]) (NDArray 1 [[- 1], [0]]) 2 2
   = Inr (NDArray 5 [[1, 1, 0, 0, 0], [0, 0, - 1, 0, 1], [0, 0, 0, - 1, 1],
                     [0, 0, 1, 0, 0], [0, 1, 0, - 1, 0 :: real]],
          NDArray 5 [[0, 0, 0, 0, 0], [0, 0, 0, 0, 0], [0, 0, 0, 0, 0],
                     [0, 0, 0, 0, 0], [0, 0, 0, 0, 0]],
          NDArray 1 [[0], [0], [0], [- 1], [0 :: complex]])"
proof -
  have h: "0 < (2::nat)"
    "has_shape (NDArray 2 [[1, 1 :: real]]) (2 - 1) 2"
    "has_shape (NDArray 2 [[0, 0], [0, 1 :: real]]) 2 2"
    "has_shape (NDArray 2 [[1, 0], [0, - 1 :: real]]) 2 2"
    "has_shape (NDArray 2 [[0, 0], [0, 0 :: real]]) 2 2"
    "has_shape (NDArray 1 [[- 1], [0 :: complex]]) 2 1"
    by (simp_all add: has_shape_def)
  show ?thesis
    unfolding get_tableau_matrix_blocks[OF h(1) h(2) h(3) h(4) h(5) h(5) h(6)]
    by (simp add: stiffness_spec_def damping_spec_def source_spec_def tabulate_def cell_def
        upt_rec numeral_nat)
qed

section \<open>Agreement of the symbolic and the numeric track\<close>

lemma tok_sign_canon_cell [simp]: "tok_sign (canon_cell s) = tok_sign s"
  by (auto simp: canon_cell_def tok_sign_def tok_zero_def Let_def)

lemma tok_sign_canon_zero [simp]: "tok_sign (canon_zero s) = tok_sign s"
  by (auto simp: canon_zero_def tok_sign_def tok_zero_def)

lemma tok_sign_consts [simp]:
  "tok_sign [] = 0" "tok_sign ''0.0'' = 0" "tok_sign ''-0.0'' = 0" "tok_sign ''0'' = 0"
  "tok_sign ''1'' = 1" "tok_sign ''-1'' = - 1" "tok_sign ''-1.0'' = - 1"
  by (simp_all add: tok_sign_def tok_zero_def)

lemma tok_sign_name:
  assumes "plain_name s"
  shows "tok_sign (to_S500 s) = 1" "tok_sign (to_S500 (''-'' @ s)) = - 1"
proof -
  obtain x xs where s: "s = x # xs" and x: "x \<noteq> CHR ''-''" "x \<noteq> CHR ''0''"
    using assms by (cases s) (auto simp: plain_name_def)
  have t: "take 500 (x # xs) = x # take 499 xs" "take 499 (x # xs) = x # take 498 xs"
    by (simp_all add: take_Cons')
  show "tok_sign (to_S500 s) = 1"
    using x by (simp add: s to_S500_def t tok_sign_def tok_zero_def)
  show "tok_sign (to_S500 (''-'' @ s)) = - 1"
    using x by (simp add: s to_S500_def t take_Cons' tok_sign_def tok_zero_def)
qed

lemma agree_by_tabulate:
  "agree_by val (tabulate r c s) (tabulate r c f)
     \<longleftrightarrow> (\<forall>i<r. \<forall>j<c. tok_sign (s i j) = sgn (val (f i j)))"
  by (auto simp: agree_by_def tabulate_def list_all2_conv_all_nth)

lemma kept_rows_tabulate:
  assumes "k < n"
  shows "NDArray e (map (\<lambda>a. map (f a) [0..<e]) ([0..<k] @ [Suc k..<n]))
     = tabulate (n - 1) e (\<lambda>i j. f (if i < k then i else Suc i) j)"
proof -
  have "[0..<k] @ [Suc k..<n] = map (\<lambda>i. if i < k then i else Suc i) [0..<n - 1]"
    using assms by (auto intro!: nth_equalityI simp: nth_append)
  then show ?thesis by (simp add: tabulate_def comp_def)
qed


lemma indices_step_eq:
  "indices_step (i, x) (a1, a2, a3, a4, a5, a6) =
     (if cls x = cls_R then a1 @ [i] else a1, if cls x = cls_V then a2 @ [i] else a2,
      if cls x = cls_I then a3 @ [i] else a3, if cls x = cls_L then a4 @ [i] else a4,
      if cls x = cls_C then a5 @ [i] else a5,
      if cls x = cls_ElmerComponent then a6 @ [i] else a6)"
  by (simp add: indices_step_def)

lemma fold_indices_step:
  "fold indices_step (enumerate k xs) (a1, a2, a3, a4, a5, a6) =
     (a1 @ map fst (filter (\<lambda>p. cls (snd p) = cls_R) (enumerate k xs)),
      a2 @ map fst (filter (\<lambda>p. cls (snd p) = cls_V) (enumerate k xs)),
      a3 @ map fst (filter (\<lambda>p. cls (snd p) = cls_I) (enumerate k xs)),
      a4 @ map fst (filter (\<lambda>p. cls (snd p) = cls_L) (enumerate k xs)),
      a5 @ map fst (filter (\<lambda>p. cls (snd p) = cls_C) (enumerate k xs)),
      a6 @ map fst (filter (\<lambda>p. cls (snd p) = cls_ElmerComponent) (enumerate k xs)))"
proof (induction xs arbitrary: k a1 a2 a3 a4 a5 a6)
  case Nil
  then show ?case by simp
next
  case (Cons x xs)
  have "fold indices_step (enumerate k (x # xs)) (a1, a2, a3, a4, a5, a6)
      = fold indices_step (enumerate (Suc k) xs) (indices_step (k, x) (a1, a2, a3, a4, a5, a6))"
    by simp
  then show ?case
    unfolding indices_step_eq Cons.IH
    by (cases "cls x") simp_all
qed

lemma set_indices_of_class:
  "set (map fst (filter (\<lambda>p. cls (snd p) = K) (enumerate 0 cs)))
     = {i. i < length cs \<and> cls (cs ! i) = K}"
  by (auto simp: in_set_enumerate_eq image_iff)

lemma get_indices_sets:
  assumes "get_indices cs = (indr, indv, indi, indInd, indcap, indcelm)"
  shows "set indr = {i. i < length cs \<and> cls (cs ! i) = cls_R}"
    and "set indv = {i. i < length cs \<and> cls (cs ! i) = cls_V}"
    and "set indi = {i. i < length cs \<and> cls (cs ! i) = cls_I}"
    and "set indInd = {i. i < length cs \<and> cls (cs ! i) = cls_L}"
    and "set indcap = {i. i < length cs \<and> cls (cs ! i) = cls_C}"
  using assms unfolding get_indices_def fold_indices_step
  by (simp_all only: prod.inject append_Nil set_indices_of_class[symmetric])

lemma get_resistance_matrix_str_eq:
  assumes "\<forall>i\<in>set indr. i < n \<and> i < length cs"
    and "\<forall>i\<in>set indi. i < n" "\<forall>i\<in>set indcap. i < n"
  shows "get_resistance_matrix_str cs n indr indi indcap =
     Inr (tabulate n n (\<lambda>a b. ((if a = b \<and> a \<in> set indr then to_S500 (name (cs ! a)) else [])
            @ (if a = b \<and> a \<in> set indi then ''1'' else []))
            @ (if a = b \<and> a \<in> set indcap then ''1'' else [])))"
  by (simp add: get_resistance_matrix_str_def fill_diag_name_tabulate[OF assms(1)]
      fill_diag_full[OF assms(2)] fill_diag_full[OF assms(3)] np_add_tabulate to_S500_def
      cong: if_cong)

lemma get_conductance_matrix_str_eq:
  assumes "\<forall>i\<in>set indr. i < n" "\<forall>i\<in>set indv. i < n" "\<forall>i\<in>set indInd. i < n"
  shows "get_conductance_matrix_str n indr indv indInd =
     Inr (tabulate n n (\<lambda>a b. ((if a = b \<and> a \<in> set indr then ''-1'' else [])
            @ (if a = b \<and> a \<in> set indv then ''1'' else []))
            @ (if a = b \<and> a \<in> set indInd then ''1'' else [])))"
  by (simp add: get_conductance_matrix_str_def
      fill_diag_full[OF assms(1)] fill_diag_full[OF assms(2)] fill_diag_full[OF assms(3)]
      np_add_tabulate to_S500_def cong: if_cong)

lemma get_tableau_matrix_str_tabulate:
  assumes "0 < n"
  shows "get_tableau_matrix_str (tabulate (n - 1) e a) (tabulate e e r) (tabulate e e g)
           (tabulate e e l) (tabulate e e c) (tabulate e 1 f) n e
     = Inr (tabulate ((n - 1) + e + e) (e + e + (n - 1))
              (\<lambda>i j. canon_cell
                 (if i < n - 1 then (if j < e then a i j else ''0.0'')
                  else if i < (n - 1) + e then
                    (if j < e then ''0.0''
                     else if j < e + e then (if j - e = i - (n - 1) then ''-1.0'' else ''-0.0'')
                     else a (j - (e + e)) (i - (n - 1)))
                  else
                    (if j < e then r (i - ((n - 1) + e)) j
                     else if j < e + e then g (i - ((n - 1) + e)) (j - e)
                     else ''0.0''))),
            tabulate ((n - 1) + e + e) (e + e + (n - 1))
              (\<lambda>i j. canon_cell
                 (if i < (n - 1) + e then ''0.0''
                  else if j < e then l (i - ((n - 1) + e)) j
                  else if j < e + e then c (i - ((n - 1) + e)) (j - e)
                  else ''0.0'')),
            tabulate ((n - 1) + e + e) 1
              (\<lambda>i j. canon_zero
                 (if i < (n - 1) + e then ''0.0'' else canon_zero (f (i - ((n - 1) + e)) j))))"
proof -
  have k: "np_hstack [tabulate (n - 1) e a, np_full (n - 1) e ''0.0'', np_full (n - 1) (n - 1) ''0.0'']
      = Inr (tabulate (n - 1) (e + (e + (n - 1))) (\<lambda>i j. if j < e then a i j else ''0.0''))"
    by (auto simp: np_full_tabulate np_hstack2_tabulate intro!: tabulate_cong)
  have v: "np_hstack [np_full e e ''0.0'', np_neg_eye_str e, np_transpose (tabulate (n - 1) e a)]
      = Inr (tabulate e (e + (e + (n - 1)))
              (\<lambda>i j. if j < e then ''0.0''
                      else if j < e + e then (if j - e = i then ''-1.0'' else ''-0.0'')
                      else a (j - (e + e)) i))"
    by (auto simp: np_full_tabulate np_neg_eye_str_def np_transpose_tabulate np_hstack2_tabulate
        intro!: tabulate_cong)
  have m: "np_hstack [tabulate e e r, tabulate e e g, np_full e (n - 1) ''0.0'']
      = Inr (tabulate e (e + (e + (n - 1)))
              (\<lambda>i j. if j < e then r i j else if j < e + e then g i (j - e) else ''0.0''))"
    by (auto simp: np_full_tabulate np_hstack2_tabulate intro!: tabulate_cong)
  have m2: "np_hstack [tabulate e e l, tabulate e e c, np_full e (n - 1) ''0.0'']
      = Inr (tabulate e (e + (e + (n - 1)))
              (\<lambda>i j. if j < e then l i j else if j < e + e then c i (j - e) else ''0.0''))"
    by (auto simp: np_full_tabulate np_hstack2_tabulate intro!: tabulate_cong)
  have d: "2 * e + (n - 1) = e + (e + (n - 1))" by simp
  have M1: "(case np_vstack [tabulate (n - 1) (e + (e + (n - 1))) (\<lambda>i j. if j < e then a i j else ''0.0''),
        tabulate e (e + (e + (n - 1)))
              (\<lambda>i j. if j < e then ''0.0''
                      else if j < e + e then (if j - e = i then ''-1.0'' else ''-0.0'')
                      else a (j - (e + e)) i),
        tabulate e (e + (e + (n - 1)))
              (\<lambda>i j. if j < e then r i j else if j < e + e then g i (j - e) else ''0.0'')]
          of Inl err \<Rightarrow> Inl err | Inr M \<Rightarrow> Inr (np_map canon_cell M))
      = Inr (tabulate ((n - 1) + e + e) (e + e + (n - 1))
              (\<lambda>i j. canon_cell
                 (if i < n - 1 then (if j < e then a i j else ''0.0'')
                  else if i < (n - 1) + e then
                    (if j < e then ''0.0''
                     else if j < e + e then (if j - e = i - (n - 1) then ''-1.0'' else ''-0.0'')
                     else a (j - (e + e)) (i - (n - 1)))
                  else
                    (if j < e then r (i - ((n - 1) + e)) j
                     else if j < e + e then g (i - ((n - 1) + e)) (j - e)
                     else ''0.0''))))"
    apply (simp add: np_vstack2_tabulate np_map_tabulate)
    apply (rule tabulate_cong_dims)
      apply (auto simp: not_less)
    done
  have M2: "(case np_vstack [np_full (e + (n - 1)) (e + (e + (n - 1))) ''0.0'',
        tabulate e (e + (e + (n - 1)))
              (\<lambda>i j. if j < e then l i j else if j < e + e then c i (j - e) else ''0.0'')]
          of Inl err \<Rightarrow> Inl err | Inr M \<Rightarrow> Inr (np_map canon_cell M))
      = Inr (tabulate ((n - 1) + e + e) (e + e + (n - 1))
              (\<lambda>i j. canon_cell
                 (if i < (n - 1) + e then ''0.0''
                  else if j < e then l (i - ((n - 1) + e)) j
                  else if j < e + e then c (i - ((n - 1) + e)) (j - e)
                  else ''0.0'')))"
    apply (simp add: np_full_tabulate np_vstack2_tabulate np_map_tabulate)
    apply (rule tabulate_cong_dims)
      apply (auto simp: not_less add.commute)
    done
  have B: "(case np_vstack [np_full (n - 1) 1 ''0.0'', np_full e 1 ''0.0'',
                   np_map canon_zero (tabulate e 1 f)]
          of Inl err \<Rightarrow> Inl err | Inr M \<Rightarrow> Inr (np_map canon_zero M))
      = Inr (tabulate ((n - 1) + e + e) 1
              (\<lambda>i j. canon_zero
                 (if i < (n - 1) + e then ''0.0'' else canon_zero (f (i - ((n - 1) + e)) j))))"
    apply (simp add: np_full_tabulate np_vstack2_tabulate np_map_tabulate)
    apply (rule tabulate_cong_dims)
      apply (auto simp: not_less)
    done
  have split3: "\<And>X Y Z (h1 :: string ndarray \<Rightarrow> string ndarray) h2 h3.
      (case X of Inl err \<Rightarrow> Inl err | Inr M1 \<Rightarrow>
        (case Y of Inl err \<Rightarrow> Inl err | Inr bv \<Rightarrow>
          (case Z of Inl err \<Rightarrow> Inl err | Inr M2 \<Rightarrow> Inr (h1 M1, h2 M2, h3 bv))))
      = (case (case X of Inl err \<Rightarrow> Inl err | Inr M \<Rightarrow> Inr (h1 M)) of Inl err \<Rightarrow> Inl err
         | Inr M1 \<Rightarrow>
           (case (case Y of Inl err \<Rightarrow> Inl err | Inr M \<Rightarrow> Inr (h3 M)) of Inl err \<Rightarrow> Inl err
            | Inr bv \<Rightarrow>
              (case (case Z of Inl err \<Rightarrow> Inl err | Inr M \<Rightarrow> Inr (h2 M)) of Inl err \<Rightarrow> Inl err
               | Inr M2 \<Rightarrow> Inr (M1, M2, bv))))"
    by (auto split: sum.splits)
  have sh: "\<not> (0 < nrows (tabulate e 1 f) \<and> ncols (tabulate e 1 f) \<noteq> 1)" by simp
  show ?thesis
    using assms unfolding get_tableau_matrix_str_def Let_def d k v m m2
    by (simp only: sum.case sh if_False split3 M1 M2 B) simp
qed

lemma stiffness_agree:
  assumes A: "\<And>i j. i < n1 \<Longrightarrow> j < e \<Longrightarrow> tok_sign (as i j) = sgn (a i j)"
    and R: "\<And>i j. i < e \<Longrightarrow> j < e \<Longrightarrow> tok_sign (rs i j) = sgn (r i j)"
    and G: "\<And>i j. i < e \<Longrightarrow> j < e \<Longrightarrow> tok_sign (gs i j) = sgn (g i j)"
  shows "agree_by (\<lambda>x. x)
     (tabulate (n1 + e + e) (e + e + n1)
        (\<lambda>i j. canon_cell
           (if i < n1 then (if j < e then as i j else ''0.0'')
            else if i < n1 + e then
              (if j < e then ''0.0''
               else if j < e + e then (if j - e = i - n1 then ''-1.0'' else ''-0.0'')
               else as (j - (e + e)) (i - n1))
            else
              (if j < e then rs (i - (n1 + e)) j
               else if j < e + e then gs (i - (n1 + e)) (j - e)
               else ''0.0''))))
     (stiffness_spec (tabulate n1 e a) (tabulate e e r) (tabulate e e g) n1 e)"
  unfolding stiffness_spec_def agree_by_tabulate
proof (intro allI impI)
  fix i j assume i: "i < n1 + e + e" and j: "j < e + e + n1"
  consider (kcl) "i < n1" | (kvl) "n1 \<le> i" "i < n1 + e" | (cmp) "n1 + e \<le> i"
    by linarith
  then show "tok_sign (canon_cell
           (if i < n1 then (if j < e then as i j else ''0.0'')
            else if i < n1 + e then
              (if j < e then ''0.0''
               else if j < e + e then (if j - e = i - n1 then ''-1.0'' else ''-0.0'')
               else as (j - (e + e)) (i - n1))
            else
              (if j < e then rs (i - (n1 + e)) j
               else if j < e + e then gs (i - (n1 + e)) (j - e)
               else ''0.0'')))
      = sgn (if i < n1 then (if j < e then cell (tabulate n1 e a) i j else 0)
          else if i < n1 + e then
            (if j < e then 0
             else if j < e + e then (if j - e = i - n1 then - 1 else 0)
             else cell (tabulate n1 e a) (j - (e + e)) (i - n1))
          else
            (if j < e then cell (tabulate e e r) (i - (n1 + e)) j
             else if j < e + e then cell (tabulate e e g) (i - (n1 + e)) (j - e)
             else 0))"
  proof cases
    case kcl
    then show ?thesis using A[of i j] by simp
  next
    case kvl
    have "j - (e + e) < n1 \<and> i - n1 < e" if "\<not> j < e + e" using that j kvl by linarith
    then show ?thesis using kvl A[of "j - (e + e)" "i - n1"] by simp
  next
    case cmp
    have ie: "i - (n1 + e) < e" using cmp i by linarith
    have "j - e < e" if "\<not> j < e" "j < e + e" using that by linarith
    then show ?thesis using cmp ie R[of "i - (n1 + e)" j] G[of "i - (n1 + e)" "j - e"] by simp
  qed
qed

lemma damping_agree:
  assumes L: "\<And>i j. i < e \<Longrightarrow> j < e \<Longrightarrow> tok_sign (ls i j) = sgn (l i j)"
    and C: "\<And>i j. i < e \<Longrightarrow> j < e \<Longrightarrow> tok_sign (cs i j) = sgn (c i j)"
  shows "agree_by (\<lambda>x. x)
     (tabulate (n1 + e + e) (e + e + n1)
        (\<lambda>i j. canon_cell
           (if i < n1 + e then ''0.0''
            else if j < e then ls (i - (n1 + e)) j
            else if j < e + e then cs (i - (n1 + e)) (j - e)
            else ''0.0'')))
     (damping_spec (tabulate e e l) (tabulate e e c) n1 e)"
  unfolding damping_spec_def agree_by_tabulate
proof (intro allI impI)
  fix i j assume i: "i < n1 + e + e" and j: "j < e + e + n1"
  show "tok_sign (canon_cell
           (if i < n1 + e then ''0.0''
            else if j < e then ls (i - (n1 + e)) j
            else if j < e + e then cs (i - (n1 + e)) (j - e)
            else ''0.0''))
      = sgn (if i < n1 + e then 0
          else if j < e then cell (tabulate e e l) (i - (n1 + e)) j
          else if j < e + e then cell (tabulate e e c) (i - (n1 + e)) (j - e)
          else 0)"
  proof (cases "i < n1 + e")
    case True
    then show ?thesis by simp
  next
    case False
    have ie: "i - (n1 + e) < e" using False i by linarith
    have "j - e < e" if "\<not> j < e" "j < e + e" using that by linarith
    then show ?thesis using False ie L[of "i - (n1 + e)" j] C[of "i - (n1 + e)" "j - e"] by simp
  qed
qed

lemma source_agree:
  assumes F: "\<And>i j. i < e \<Longrightarrow> j < 1 \<Longrightarrow> tok_sign (fs i j) = sgn (Re (f i j))"
  shows "agree_by Re
     (tabulate (n1 + e + e) 1
        (\<lambda>i j. canon_zero (if i < n1 + e then ''0.0'' else canon_zero (fs (i - (n1 + e)) j))))
     (source_spec (tabulate e 1 f) n1 e)"
  unfolding source_spec_def agree_by_tabulate
proof (intro allI impI)
  fix i j :: nat assume i: "i < n1 + e + e" and j: "j < 1"
  show "tok_sign (canon_zero (if i < n1 + e then ''0.0'' else canon_zero (fs (i - (n1 + e)) j)))
      = sgn (Re (if i < n1 + e then 0 else cell (tabulate e 1 f) (i - (n1 + e)) j))"
  proof (cases "i < n1 + e")
    case True
    then show ?thesis by simp
  next
    case False
    have ie: "i - (n1 + e) < e" using False i by linarith
    show ?thesis using False ie j F[of "i - (n1 + e)" j] by simp
  qed
qed

lemma tableau_agree_tabulate:
  assumes "0 < n"
    and "\<And>i j. i < n - 1 \<Longrightarrow> j < e \<Longrightarrow> tok_sign (as i j) = sgn (a i j)"
    and "\<And>i j. i < e \<Longrightarrow> j < e \<Longrightarrow> tok_sign (rs i j) = sgn (r i j)"
    and "\<And>i j. i < e \<Longrightarrow> j < e \<Longrightarrow> tok_sign (gs i j) = sgn (g i j)"
    and "\<And>i j. i < e \<Longrightarrow> j < e \<Longrightarrow> tok_sign (ls i j) = sgn (l i j)"
    and "\<And>i j. i < e \<Longrightarrow> j < e \<Longrightarrow> tok_sign (cs i j) = sgn (c i j)"
    and "\<And>i j. i < e \<Longrightarrow> j < 1 \<Longrightarrow> tok_sign (fs i j) = sgn (Re (f i j))"
  shows "agree_systems
     (get_tableau_matrix_str (tabulate (n - 1) e as) (tabulate e e rs) (tabulate e e gs)
        (tabulate e e ls) (tabulate e e cs) (tabulate e 1 fs) n e)
     (get_tableau_matrix (tabulate (n - 1) e a) (tabulate e e r) (tabulate e e g)
        (tabulate e e l) (tabulate e e c) (tabulate e 1 f) n e)"
  unfolding get_tableau_matrix_str_tabulate[OF assms(1)] get_tableau_matrix_tabulate[OF assms(1)]
    agree_systems.simps
  using stiffness_agree[of "n - 1" e as a rs r gs g, OF assms(2,3,4)]
    damping_agree[of e ls l cs c "n - 1", OF assms(5,6)]
    source_agree[of e fs f "n - 1", OF assms(7)]
  by simp

lemma incidence_agree:
  assumes "e \<le> length cs"
    and "\<forall>c\<in>set (take e cs). 1 \<le> pin1 c \<and> pin1 c \<le> int n \<and> 1 \<le> pin2 c \<and> pin2 c \<le> int n
           \<and> pin1 c \<noteq> pin2 c"
    and "1 \<le> n_ref" "n_ref \<le> int n"
  shows "\<exists>a as. get_incidence_matrix cs n e n_ref = Inr (tabulate (n - 1) e a)
      \<and> get_incidence_matrix_str cs n e n_ref = Inr (tabulate (n - 1) e as)
      \<and> (\<forall>i<n - 1. \<forall>j<e. tok_sign (as i j) = sgn (a i j))"
proof -
  let ?k = "norm_index n (n_ref - 1)"
  have k: "?k < n" using assms(3,4) by (simp add: valid_pin_index)
  have mem: "cs ! b \<in> set (take e cs)" if "b < e" for b
    using that assms(1) by (metis in_set_conv_nth length_take min.absorb2 nth_take)
  have cond: "(\<forall>c\<in>set (take e cs). in_range n (pin1 c - 1))"
    "(\<forall>c\<in>set (take e cs). in_range n (pin2 c - 1))" "in_range n (n_ref - 1)"
    using assms(2-4) by (auto intro: valid_pin_index(1))
  have ne: "norm_index n (pin1 (cs ! b) - 1) \<noteq> norm_index n (pin2 (cs ! b) - 1)" if "b < e" for b
  proof -
    from mem[OF that] assms(2)
    have p: "1 \<le> pin1 (cs ! b)" "pin1 (cs ! b) \<le> int n" "1 \<le> pin2 (cs ! b)" "pin2 (cs ! b) \<le> int n"
      "pin1 (cs ! b) \<noteq> pin2 (cs ! b)"
      by auto
    show ?thesis
      using p nat_pred_eq_iff[OF p(1) p(3)] by (simp add: valid_pin_index(2))
  qed
  let ?a = "\<lambda>i j. (if norm_index n (pin1 (cs ! j) - 1) = (if i < ?k then i else Suc i) then 1 else 0)
      + (if norm_index n (pin2 (cs ! j) - 1) = (if i < ?k then i else Suc i) then - 1 else (0::real))"
  let ?as = "\<lambda>i j. (if norm_index n (pin1 (cs ! j) - 1) = (if i < ?k then i else Suc i) then ''1'' else [])
      @ (if norm_index n (pin2 (cs ! j) - 1) = (if i < ?k then i else Suc i) then ''-1'' else [])"
  have c: "e \<le> length cs \<and> (\<forall>c\<in>set (take e cs). in_range n (pin1 c - 1))
       \<and> (\<forall>c\<in>set (take e cs). in_range n (pin2 c - 1)) \<and> in_range n (n_ref - 1)"
    using assms(1) cond by blast
  have 1: "get_incidence_matrix cs n e n_ref = Inr (tabulate (n - 1) e ?a)"
    unfolding get_incidence_matrix_eq if_P[OF c] kept_rows_tabulate[OF k] ..
  have 2: "get_incidence_matrix_str cs n e n_ref = Inr (tabulate (n - 1) e ?as)"
    unfolding get_incidence_matrix_str_eq if_P[OF c] kept_rows_tabulate[OF k] ..
  have 3: "\<forall>i<n - 1. \<forall>j<e. tok_sign (?as i j) = sgn (?a i j)"
  proof (intro allI impI)
    fix i j assume "i < n - 1" "j < e"
    then show "tok_sign (?as i j) = sgn (?a i j)" using ne[of j] by auto
  qed
  show ?thesis using 1 2 3 by blast
qed

lemma positive_value_float: "positive_value x \<Longrightarrow> is_float x \<and> 0 < the_float x"
  by (cases x) simp_all

lemma lumped_facts:
  assumes "\<forall>c\<in>set cs. lumped c \<longrightarrow> plain_name (name c) \<and> positive_value (cvalue c)"
    and "i < length cs" "lumped (cs ! i)"
  shows "tok_sign (to_S500 (name (cs ! i))) = 1"
    and "tok_sign (to_S500 (''-'' @ name (cs ! i))) = - 1"
    and "is_float (cvalue (cs ! i))" and "0 < the_float (cvalue (cs ! i))"
proof -
  have "cs ! i \<in> set cs" using assms(2) by simp
  with assms(1,3) have p: "plain_name (name (cs ! i))" "positive_value (cvalue (cs ! i))"
    by blast+
  show "tok_sign (to_S500 (name (cs ! i))) = 1" using p(1) by (rule tok_sign_name(1))
  show "tok_sign (to_S500 (''-'' @ name (cs ! i))) = - 1" using p(1) by (rule tok_sign_name(2))
  show "is_float (cvalue (cs ! i))" "0 < the_float (cvalue (cs ! i))"
    using positive_value_float[OF p(2)] by simp_all
qed

lemma resistance_agree:
  assumes idx: "get_indices cs = (indr, indv, indi, indInd, indcap, indcelm)"
    and lump: "\<forall>c\<in>set cs. lumped c \<longrightarrow> plain_name (name c) \<and> positive_value (cvalue c)"
  shows "\<exists>r rs. get_resistance_matrix cs (length cs) indr indi indcap
                   = Inr (tabulate (length cs) (length cs) r)
      \<and> get_resistance_matrix_str cs (length cs) indr indi indcap
                   = Inr (tabulate (length cs) (length cs) rs)
      \<and> (\<forall>i<length cs. \<forall>j<length cs. tok_sign (rs i j) = sgn (r i j))"
proof -
  note sets = get_indices_sets[OF idx]
  note lf = lumped_facts[OF lump]
  have b: "\<forall>i\<in>set indr. i < length cs \<and> i < length cs \<and> is_float (cvalue (cs ! i))"
    "\<forall>i\<in>set indr. i < length cs \<and> i < length cs"
    "\<forall>i\<in>set indi. i < length cs" "\<forall>i\<in>set indcap. i < length cs"
    using lf(3) by (auto simp: sets lumped_def)
  let ?r = "\<lambda>a b. (if a = b \<and> a \<in> set indr then the_float (cvalue (cs ! a)) else 0)
            + (if a = b \<and> a \<in> set indi then 1 else 0)
            + (if a = b \<and> a \<in> set indcap then 1 else 0)"
  let ?rs = "\<lambda>a b. ((if a = b \<and> a \<in> set indr then to_S500 (name (cs ! a)) else [])
            @ (if a = b \<and> a \<in> set indi then ''1'' else []))
            @ (if a = b \<and> a \<in> set indcap then ''1'' else [])"
  have 3: "\<forall>i<length cs. \<forall>j<length cs. tok_sign (?rs i j) = sgn (?r i j)"
  proof (intro allI impI)
    fix i j assume i: "i < length cs" and "j < length cs"
    show "tok_sign (?rs i j) = sgn (?r i j)"
      using lf(1,4)[OF i] i by (cases "cls (cs ! i)") (auto simp: sets lumped_def)
  qed
  show ?thesis
    using get_resistance_matrix_eq[OF b(1) b(3) b(4)] get_resistance_matrix_str_eq[OF b(2) b(3) b(4)] 3
    by blast
qed

lemma conductance_agree:
  assumes idx: "get_indices cs = (indr, indv, indi, indInd, indcap, indcelm)"
  shows "\<exists>g gs. get_conductance_matrix (length cs) indr indv indInd
                   = Inr (tabulate (length cs) (length cs) g)
      \<and> get_conductance_matrix_str (length cs) indr indv indInd
                   = Inr (tabulate (length cs) (length cs) gs)
      \<and> (\<forall>i<length cs. \<forall>j<length cs. tok_sign (gs i j) = sgn (g i j))"
proof -
  note sets = get_indices_sets[OF idx]
  have b: "\<forall>i\<in>set indr. i < length cs" "\<forall>i\<in>set indv. i < length cs"
    "\<forall>i\<in>set indInd. i < length cs"
    by (auto simp: sets)
  let ?g = "\<lambda>a b. (if a = b \<and> a \<in> set indr then - 1 else 0)
            + (if a = b \<and> a \<in> set indv then 1 else 0)
            + (if a = b \<and> a \<in> set indInd then (1::real) else 0)"
  let ?gs = "\<lambda>a b. ((if a = b \<and> a \<in> set indr then ''-1'' else [])
            @ (if a = b \<and> a \<in> set indv then ''1'' else []))
            @ (if a = b \<and> a \<in> set indInd then ''1'' else [])"
  have 3: "\<forall>i<length cs. \<forall>j<length cs. tok_sign (?gs i j) = sgn (?g i j)"
  proof (intro allI impI)
    fix i j assume i: "i < length cs" and "j < length cs"
    show "tok_sign (?gs i j) = sgn (?g i j)"
      using i by (cases "cls (cs ! i)") (simp_all add: sets)
  qed
  show ?thesis
    using get_conductance_matrix_eq[OF b] get_conductance_matrix_str_eq[OF b] 3
    by blast
qed

lemma neg_value_agree:
  assumes lump: "\<forall>c\<in>set cs. lumped c \<longrightarrow> plain_name (name c) \<and> positive_value (cvalue c)"
    and ind: "set ind = {i. i < length cs \<and> cls (cs ! i) = K}" and K: "K = cls_L \<or> K = cls_C"
  shows "\<exists>l ls. fill_diag_neg_value cs ind (np_full (length cs) (length cs) 0)
                   = Inr (tabulate (length cs) (length cs) l)
      \<and> fill_diag_name ''-'' cs ind (np_full (length cs) (length cs) [])
                   = Inr (tabulate (length cs) (length cs) ls)
      \<and> (\<forall>i<length cs. \<forall>j<length cs. tok_sign (ls i j) = sgn (l i j))"
proof -
  note lf = lumped_facts[OF lump]
  have b: "\<forall>i\<in>set ind. i < length cs \<and> i < length cs \<and> is_float (cvalue (cs ! i))"
    "\<forall>i\<in>set ind. i < length cs \<and> i < length cs"
    using lf(3) K by (auto simp: ind lumped_def)
  let ?l = "\<lambda>a b. if a = b \<and> a \<in> set ind then - the_float (cvalue (cs ! a)) else 0"
  let ?ls = "\<lambda>a b. if a = b \<and> a \<in> set ind then to_S500 (''-'' @ name (cs ! a)) else []"
  have 3: "\<forall>i<length cs. \<forall>j<length cs. tok_sign (?ls i j) = sgn (?l i j)"
  proof (intro allI impI)
    fix i j assume i: "i < length cs" and "j < length cs"
    show "tok_sign (?ls i j) = sgn (?l i j)"
      using lf(2,4)[OF i] i K by (auto simp: ind lumped_def)
  qed
  show ?thesis
    using fill_diag_neg_value_tabulate[OF b(1)] fill_diag_name_tabulate[OF b(2), of "''-''"] 3
    by blast
qed

lemma rhs_agree:
  assumes idx: "get_indices cs = (indr, indv, indi, indInd, indcap, indcelm)"
    and lump: "\<forall>c\<in>set cs. lumped c \<longrightarrow> plain_name (name c) \<and> positive_value (cvalue c)"
  shows "\<exists>f fs. get_rhs cs (length cs) indi indv = Inr (tabulate (length cs) 1 f)
      \<and> get_rhs_str cs (length cs) indi indv = Inr (tabulate (length cs) 1 fs)
      \<and> (\<forall>i<length cs. \<forall>j<1. tok_sign (fs i j) = sgn (Re (f i j)))"
proof -
  note sets = get_indices_sets[OF idx]
  note lf = lumped_facts[OF lump]
  have b: "\<forall>i\<in>set indi. i < length cs \<and> i < length cs \<and> is_float (cvalue (cs ! i))"
    "\<forall>i\<in>set indv. i < length cs \<and> i < length cs \<and> is_float (cvalue (cs ! i))"
    "\<forall>i\<in>set indi. i < length cs \<and> i < length cs"
    "\<forall>i\<in>set indv. i < length cs \<and> i < length cs"
    using lf(3) by (auto simp: sets lumped_def)
  let ?f = "\<lambda>a (b::nat). complex_of_real
            ((if a \<in> set indv then - the_float (cvalue (cs ! a)) else 0)
             + (if a \<in> set indi then the_float (cvalue (cs ! a)) else 0))"
  let ?fs = "\<lambda>a (b::nat). (if a \<in> set indv then to_S500 (''-'' @ name (cs ! a)) else [])
                              @ (if a \<in> set indi then to_S500 (name (cs ! a)) else [])"
  have 3: "\<forall>i<length cs. \<forall>j<1. tok_sign (?fs i j) = sgn (Re (?f i j))"
  proof (intro allI impI)
    fix i j :: nat assume i: "i < length cs" and "j < 1"
    show "tok_sign (?fs i j) = sgn (Re (?f i j))"
      using lf(1,2,4)[OF i] i by (cases "cls (cs ! i)") (auto simp: sets lumped_def)
  qed
  show ?thesis
    using get_rhs_real[OF b(1) b(2)] get_rhs_str_eq[OF b(3) b(4)] 3
    by blast
qed

text \<open>
  A current source of \<open>-2\<close> A: the numeric source vector holds \<open>-2\<close>, the symbolic one the
  name \<open>I1\<close> with no leading \<open>-\<close>. The symbolic track carries names, whatever the values are.
\<close>

theorem tracks_disagree_on_negative_source:
  "get_rhs negative_source 1 [0] [] = Inr (NDArray 1 [[- 2]])
   \<and> get_rhs_str negative_source 1 [0] [] = Inr (NDArray 1 [[''I1'']])
   \<and> \<not> agree_res Re (get_rhs_str negative_source 1 [0] []) (get_rhs negative_source 1 [0] [])"
  by (simp add: get_rhs_def rhs_i_body_def rhs_init_def negative_source_def py_list_get_def
      set_row_def np_index_def nrows_def np_full_def np_add_def get_rhs_str_def
      fill_rows_name_def to_S500_def agree_by_def tok_sign_def tok_zero_def)

text \<open>
  C1, as amended. Take a circuit whose terminal ids and reference node lie in
  \<open>1..num_nodes\<close>, without self-loops, whose resistors, sources, inductors and capacitors
  carry a positive real value and a name that is not empty and starts with neither \<open>-\<close> nor
  \<open>0\<close>, with the index lists that \<open>get_indices\<close> returns. Then every builder of both tracks
  returns, and in every cell of the incidence matrix, the four branch matrices, the source
  vector and the assembled stiffness matrix, damping matrix and source vector the token of
  the symbolic track is non-zero exactly where the number of the numeric track is, with a
  leading \<open>-\<close> exactly where the number is negative.
\<close>

theorem tracks_agree:
  assumes "num_nodes = get_num_nodes components" "num_edges = get_num_edges components"
    and "get_indices components = (indr, indv, indi, indInd, indcap, indcelm)"
    and "\<forall>c\<in>set components. 1 \<le> pin1 c \<and> pin1 c \<le> int num_nodes
           \<and> 1 \<le> pin2 c \<and> pin2 c \<le> int num_nodes \<and> pin1 c \<noteq> pin2 c"
    and "1 \<le> n_ref" "n_ref \<le> int num_nodes"
    and "\<forall>c\<in>set components. lumped c \<longrightarrow> plain_name (name c) \<and> positive_value (cvalue c)"
  shows "agree_res (\<lambda>x. x) (get_incidence_matrix_str components num_nodes num_edges n_ref)
           (get_incidence_matrix components num_nodes num_edges n_ref)
     \<and> agree_res (\<lambda>x. x) (get_resistance_matrix_str components num_edges indr indi indcap)
           (get_resistance_matrix components num_edges indr indi indcap)
     \<and> agree_res (\<lambda>x. x) (get_conductance_matrix_str num_edges indr indv indInd)
           (get_conductance_matrix num_edges indr indv indInd)
     \<and> agree_res (\<lambda>x. x) (get_inductance_matrix_str components num_edges indInd)
           (get_inductance_matrix components num_edges indInd)
     \<and> agree_res (\<lambda>x. x) (get_capacitance_matrix_str components num_edges indcap)
           (get_capacitance_matrix components num_edges indcap)
     \<and> agree_res Re (get_rhs_str components num_edges indi indv)
           (get_rhs components num_edges indi indv)
     \<and> agree_systems (build_symbolic_system components n_ref)
           (build_numeric_system components n_ref)"
proof -
  have e: "num_edges = length components" using assms(2) by (simp add: get_num_edges_def)
  have n: "0 < num_nodes" using assms(5,6) by simp
  note sets = get_indices_sets[OF assms(3)]
  have pins: "\<forall>c\<in>set (take num_edges components). 1 \<le> pin1 c \<and> pin1 c \<le> int num_nodes
           \<and> 1 \<le> pin2 c \<and> pin2 c \<le> int num_nodes \<and> pin1 c \<noteq> pin2 c"
    using assms(4) by (simp add: e)
  obtain a as where A: "get_incidence_matrix components num_nodes num_edges n_ref
        = Inr (tabulate (num_nodes - 1) num_edges a)"
      "get_incidence_matrix_str components num_nodes num_edges n_ref
        = Inr (tabulate (num_nodes - 1) num_edges as)"
      "\<forall>i<num_nodes - 1. \<forall>j<num_edges. tok_sign (as i j) = sgn (a i j)"
    using incidence_agree[OF _ pins assms(5,6)] e by auto
  obtain r rs where R: "get_resistance_matrix components num_edges indr indi indcap
        = Inr (tabulate num_edges num_edges r)"
      "get_resistance_matrix_str components num_edges indr indi indcap
        = Inr (tabulate num_edges num_edges rs)"
      "\<forall>i<num_edges. \<forall>j<num_edges. tok_sign (rs i j) = sgn (r i j)"
    using resistance_agree[OF assms(3,7)] unfolding e by blast
  obtain g gs where G: "get_conductance_matrix num_edges indr indv indInd
        = Inr (tabulate num_edges num_edges g)"
      "get_conductance_matrix_str num_edges indr indv indInd
        = Inr (tabulate num_edges num_edges gs)"
      "\<forall>i<num_edges. \<forall>j<num_edges. tok_sign (gs i j) = sgn (g i j)"
    using conductance_agree[OF assms(3)] unfolding e by blast
  obtain l ls where L: "get_inductance_matrix components num_edges indInd
        = Inr (tabulate num_edges num_edges l)"
      "get_inductance_matrix_str components num_edges indInd
        = Inr (tabulate num_edges num_edges ls)"
      "\<forall>i<num_edges. \<forall>j<num_edges. tok_sign (ls i j) = sgn (l i j)"
    using neg_value_agree[OF assms(7) sets(4)]
    unfolding e get_inductance_matrix_def get_inductance_matrix_str_def by blast
  obtain c cs where C: "get_capacitance_matrix components num_edges indcap
        = Inr (tabulate num_edges num_edges c)"
      "get_capacitance_matrix_str components num_edges indcap
        = Inr (tabulate num_edges num_edges cs)"
      "\<forall>i<num_edges. \<forall>j<num_edges. tok_sign (cs i j) = sgn (c i j)"
    using neg_value_agree[OF assms(7) sets(5)]
    unfolding e get_capacitance_matrix_def get_capacitance_matrix_str_def by blast
  obtain f fs where F: "get_rhs components num_edges indi indv = Inr (tabulate num_edges 1 f)"
      "get_rhs_str components num_edges indi indv = Inr (tabulate num_edges 1 fs)"
      "\<forall>i<num_edges. \<forall>j<1. tok_sign (fs i j) = sgn (Re (f i j))"
    using rhs_agree[OF assms(3,7)] unfolding e by blast
  have T: "agree_systems
     (get_tableau_matrix_str (tabulate (num_nodes - 1) num_edges as) (tabulate num_edges num_edges rs)
        (tabulate num_edges num_edges gs) (tabulate num_edges num_edges ls)
        (tabulate num_edges num_edges cs) (tabulate num_edges 1 fs) num_nodes num_edges)
     (get_tableau_matrix (tabulate (num_nodes - 1) num_edges a) (tabulate num_edges num_edges r)
        (tabulate num_edges num_edges g) (tabulate num_edges num_edges l)
        (tabulate num_edges num_edges c) (tabulate num_edges 1 f) num_nodes num_edges)"
    using A(3) R(3) G(3) L(3) C(3) F(3) by (intro tableau_agree_tabulate[OF n]) auto
  have S: "build_symbolic_system components n_ref
      = get_tableau_matrix_str (tabulate (num_nodes - 1) num_edges as) (tabulate num_edges num_edges rs)
        (tabulate num_edges num_edges gs) (tabulate num_edges num_edges ls)
        (tabulate num_edges num_edges cs) (tabulate num_edges 1 fs) num_nodes num_edges"
    unfolding build_symbolic_system_def Let_def assms(1)[symmetric] assms(2)[symmetric] assms(3)
    by (simp only: prod.case A(2) R(2) G(2) L(2) C(2) F(2) sum.case)
  have N: "build_numeric_system components n_ref
      = get_tableau_matrix (tabulate (num_nodes - 1) num_edges a) (tabulate num_edges num_edges r)
        (tabulate num_edges num_edges g) (tabulate num_edges num_edges l)
        (tabulate num_edges num_edges c) (tabulate num_edges 1 f) num_nodes num_edges"
    unfolding build_numeric_system_def Let_def assms(1)[symmetric] assms(2)[symmetric] assms(3)
    by (simp only: prod.case A(1) R(1) G(1) L(1) C(1) F(1) sum.case)
  show ?thesis
    unfolding S N A(1,2) R(1,2) G(1,2) L(1,2) C(1,2) F(1,2) agree_res.simps agree_by_tabulate
    using T A(3) R(3) G(3) L(3) C(3) F(3) by blast
qed

text \<open>
  The theorem at a current source, a resistor, an inductor and a capacitor in a loop over
  four nodes, with reference node 2.
\<close>

theorem tracks_agree_witness:
  "agree_res (\<lambda>x. x) (get_incidence_matrix_str example_rlc 4 4 2)
           (get_incidence_matrix example_rlc 4 4 2)
     \<and> agree_res (\<lambda>x. x) (get_resistance_matrix_str example_rlc 4 [1] [0] [3])
           (get_resistance_matrix example_rlc 4 [1] [0] [3])
     \<and> agree_res (\<lambda>x. x) (get_conductance_matrix_str 4 [1] [] [2])
           (get_conductance_matrix 4 [1] [] [2])
     \<and> agree_res (\<lambda>x. x) (get_inductance_matrix_str example_rlc 4 [2])
           (get_inductance_matrix example_rlc 4 [2])
     \<and> agree_res (\<lambda>x. x) (get_capacitance_matrix_str example_rlc 4 [3])
           (get_capacitance_matrix example_rlc 4 [3])
     \<and> agree_res Re (get_rhs_str example_rlc 4 [0] [])
           (get_rhs example_rlc 4 [0] [])
     \<and> agree_systems (build_symbolic_system example_rlc 2)
           (build_numeric_system example_rlc 2)"
proof -
  have h1: "4 = get_num_nodes example_rlc"
    by (simp add: get_num_nodes_def example_rlc_def)
  have h2: "4 = get_num_edges example_rlc"
    by (simp add: get_num_edges_def example_rlc_def)
  have h3: "get_indices example_rlc = ([1], [], [0], [2], [3], [])"
    by (simp add: get_indices_def indices_step_def example_rlc_def enumerate_eq_zip upt_rec)
  have h4: "\<forall>c\<in>set example_rlc. 1 \<le> pin1 c \<and> pin1 c \<le> int 4
           \<and> 1 \<le> pin2 c \<and> pin2 c \<le> int 4 \<and> pin1 c \<noteq> pin2 c"
    by (simp add: example_rlc_def)
  have h5: "(1::int) \<le> 2" "(2::int) \<le> int 4" by simp_all
  have h6: "\<forall>c\<in>set example_rlc. lumped c \<longrightarrow> plain_name (name c) \<and> positive_value (cvalue c)"
    by (simp add: example_rlc_def plain_name_def)
  show ?thesis
    by (rule tracks_agree[OF h1 h2 h3 h4 h5 h6])
qed

text \<open>
  A self-loop is a second way the tracks part: the numeric entries \<open>+1\<close> and \<open>-1\<close> cancel,
  the symbolic cells are concatenated to the token \<open>1-1\<close>.
\<close>

lemma self_loop_tracks_differ:
  "get_incidence_matrix
     [\<lparr>cls = cls_R, name = ''R1'', pin1 = 1, pin2 = 1, cvalue = PyFloat 1\<rparr>] 2 1 2
     = Inr (NDArray 1 [[0]])
   \<and> get_incidence_matrix_str
     [\<lparr>cls = cls_R, name = ''R1'', pin1 = 1, pin2 = 1, cvalue = PyFloat 1\<rparr>] 2 1 2
     = Inr (NDArray 1 [[''1-1'']])"
  by (simp add: get_incidence_matrix_eq get_incidence_matrix_str_eq in_range_def norm_index_def
      upt_rec numeral_nat)

section \<open>Open and closed coils\<close>

text \<open>
  A call of \<open>isOpen\<close> always leaves the component open, and a fresh component that is
  closed has no boundaries: each configuration reached by a single call is consistent.
\<close>

lemma isOpen_not_exposes_both: "\<not> exposes_both (isOpen b1 b2 s)"
  by (simp add: exposes_both_def getTerminalType_def isOpen_def)

lemma isClosed_fresh_not_exposes_both: "\<not> exposes_both (isClosed elmer_init)"
  by (simp add: exposes_both_def getTerminalType_def getOpenTerminals_def isClosed_def
      elmer_init_def)

text \<open>
  C10. The claim: after any sequence of calls to \<open>isClosed()\<close> and \<open>isOpen(bnd1, bnd2)\<close> a
  component never exposes a closed terminal type together with declared boundary ids.
  \<open>isClosed\<close> sets the flag and leaves the boundaries that an earlier \<open>isOpen\<close> stored, so
  after \<open>isOpen(1, 2)\<close> followed by \<open>isClosed()\<close> the component reports
  \<open>getTerminalType() = True\<close> and \<open>getOpenTerminals() = [1, 2]\<close>.
\<close>

theorem isClosed_keeps_boundaries:
  "getTerminalType (run_calls [CallIsOpen (Some 1) (Some 2), CallIsClosed] elmer_init) = Some True
   \<and> getOpenTerminals (run_calls [CallIsOpen (Some 1) (Some 2), CallIsClosed] elmer_init)
       = [Some 1, Some 2]
   \<and> exposes_both (run_calls [CallIsOpen (Some 1) (Some 2), CallIsClosed] elmer_init)"
  by (simp add: exposes_both_def getTerminalType_def getOpenTerminals_def isClosed_def
      isOpen_def elmer_init_def)

end
